theory Spec2Isabelle
  imports Complex_Main "HOL-Library.Log_Nat" "HOL-Library.AList" "HOL-Library.While_Combinator"
begin

section \<open>Python values and the builtins the record layer calls\<close>

text \<open>
  The package is Python 2 code (\<^verbatim>\<open>iteritems\<close>, \<^verbatim>\<open>unicode\<close>, \<^verbatim>\<open>basestring\<close>,
  \<^verbatim>\<open>except A, B:\<close>).  An exception is a value of \<open>py_error\<close>; a function that may
  raise returns \<open>py_error + 'a\<close> with \<open>Inl\<close> for the raised exception.
\<close>

datatype py_error =
    TypeError
  | ValueError
  | AttributeError
  | OverflowError
  | MissingID
  | BadKeyError
  | ResponseError

text \<open>
  A float is a rational (every finite double is one), or one of the three special
  values.  The two zeros of IEEE arithmetic compare equal in Python and are one value here.
\<close>

datatype pyfloat = Finite rat | PosInf | NegInf | NaN

text \<open>
  \<open>PDateTime s us\<close> is the \<^verbatim>\<open>datetime\<close> whose POSIX timestamp is \<open>s\<close> whole seconds, with
  \<open>us\<close> microseconds; \<open>PDate d\<close> is the \<^verbatim>\<open>date\<close> \<open>d\<close> days after the epoch.  The local
  time zone is taken to be UTC, so that \<^verbatim>\<open>time.mktime(v.timetuple())\<close> is \<open>s\<close> for a datetime
  and \<open>86400 * d\<close> for a date.  \<open>PSeq\<close> stands for a tuple, a list or a dict.  Text is
  ASCII; \<^verbatim>\<open>str\<close> and \<^verbatim>\<open>unicode\<close> are one type.
\<close>

datatype pyval =
    PNone
  | PBool bool
  | PInt int
  | PFloat pyfloat
  | PStr string
  | PDateTime int nat
  | PDate int
  | PSeq "pyval list"

fun truthy :: "pyval \<Rightarrow> bool" where
  "truthy PNone = False"
| "truthy (PBool b) = b"
| "truthy (PInt n) = (n \<noteq> 0)"
| "truthy (PFloat f) = (f \<noteq> Finite 0)"
| "truthy (PStr s) = (s \<noteq> [])"
| "truthy (PDateTime s us) = True"
| "truthy (PDate d) = True"
| "truthy (PSeq xs) = (xs \<noteq> [])"

subsection \<open>Decimal text\<close>

definition is_space :: "char \<Rightarrow> bool" where
  "is_space c = (c \<in> set [CHR '' '', CHR 0x09, CHR 0x0A, CHR 0x0B, CHR 0x0C, CHR 0x0D])"

definition strip :: "string \<Rightarrow> string" where
  "strip s = rev (dropWhile is_space (rev (dropWhile is_space s)))"

definition is_digit :: "char \<Rightarrow> bool" where
  "is_digit c = (c \<in> set ''0123456789'')"

definition digit_char :: "nat \<Rightarrow> char" where
  "digit_char d = ''0123456789'' ! d"

definition digit_val :: "char \<Rightarrow> nat" where
  "digit_val c = of_char c - 48"

fun str_nat :: "nat \<Rightarrow> string" where
  "str_nat n = (if n < 10 then [digit_char n] else str_nat (n div 10) @ [digit_char (n mod 10)])"

declare str_nat.simps [simp del]

definition digits_val :: "string \<Rightarrow> nat" where
  "digits_val s = foldl (\<lambda>a c. 10 * a + digit_val c) 0 s"

definition all_digits :: "string \<Rightarrow> bool" where
  "all_digits s = (s \<noteq> [] \<and> list_all is_digit s)"

text \<open>\<^verbatim>\<open>unicode(n)\<close> for an int or a long: the decimal numeral, no \<^verbatim>\<open>L\<close> suffix.\<close>

definition str_int :: "int \<Rightarrow> string" where
  "str_int n = (if n < 0 then CHR ''-'' # str_nat (nat (- n)) else str_nat (nat n))"

text \<open>
  \<^verbatim>\<open>int(s)\<close> for text: surrounding whitespace is dropped, then an optional sign and at least
  one decimal digit; anything else is a \<^verbatim>\<open>ValueError\<close>.
\<close>

definition int_of_string :: "string \<Rightarrow> py_error + int" where
  "int_of_string s =
     (case strip s of
        [] \<Rightarrow> Inl ValueError
      | c # cs \<Rightarrow>
          if c = CHR ''-'' then
            (if all_digits cs then Inr (- int (digits_val cs)) else Inl ValueError)
          else if c = CHR ''+'' then
            (if all_digits cs then Inr (int (digits_val cs)) else Inl ValueError)
          else if all_digits (c # cs) then Inr (int (digits_val (c # cs)))
          else Inl ValueError)"

subsection \<open>Floats: \<^verbatim>\<open>"%f" % x\<close> and \<^verbatim>\<open>float(s)\<close>\<close>

definition round_half_even :: "rat \<Rightarrow> int" where
  "round_half_even q =
     (let f = \<lfloor>q\<rfloor>; r = q - of_int f in
      if r < 1 / 2 then f
      else if 1 / 2 < r then f + 1
      else if even f then f else f + 1)"

definition pow2 :: "int \<Rightarrow> rat" where
  "pow2 k = (if 0 \<le> k then 2 ^ nat k else 1 / 2 ^ nat (- k))"

text \<open>\<open>ilog2 q\<close> is \<open>\<lfloor>log\<^sub>2 q\<rfloor>\<close> for a positive rational, computed from the bit lengths.\<close>

definition ilog2 :: "rat \<Rightarrow> int" where
  "ilog2 q =
     (let (a, b) = quotient_of q;
          k = int (floorlog 2 (nat a)) - int (floorlog 2 (nat b))
      in if pow2 k \<le> q then k else k - 1)"

text \<open>
  The double nearest to a rational (ties to even): 53 significant bits, the least exponent
  of a subnormal is \<open>-1074\<close>, and a result of \<open>2\<^sup>1\<^sup>0\<^sup>2\<^sup>4\<close> or more is an infinity.
\<close>

definition round_pos_double :: "rat \<Rightarrow> rat option" where
  "round_pos_double q =
     (let e = max (ilog2 q - 52) (- 1074);
          v = of_int (round_half_even (q / pow2 e)) * pow2 e
      in if pow2 1024 \<le> v then None else Some v)"

definition round_to_double :: "rat \<Rightarrow> pyfloat" where
  "round_to_double q =
     (if q = 0 then Finite 0
      else if 0 < q then (case round_pos_double q of None \<Rightarrow> PosInf | Some v \<Rightarrow> Finite v)
      else (case round_pos_double (- q) of None \<Rightarrow> NegInf | Some v \<Rightarrow> Finite (- v)))"

definition pad6 :: "string \<Rightarrow> string" where
  "pad6 s = replicate (6 - length s) CHR ''0'' @ s"

text \<open>
  \<^verbatim>\<open>"%f" % x\<close> for a float: the exact value rounded (ties to even) to six decimal places.
\<close>

definition format_fixed :: "bool \<Rightarrow> nat \<Rightarrow> string" where
  "format_fixed neg n =
     (if neg then ''-'' else '''') @ str_nat (n div 1000000) @ ''.'' @
     pad6 (str_nat (n mod 1000000))"

fun format_f :: "pyfloat \<Rightarrow> string" where
  "format_f (Finite q) = format_fixed (q < 0) (nat (round_half_even (\<bar>q\<bar> * 1000000)))"
| "format_f PosInf = ''inf''"
| "format_f NegInf = ''-inf''"
| "format_f NaN = ''nan''"

definition lower_char :: "char \<Rightarrow> char" where
  "lower_char c =
     (let n = (of_char c :: nat) in if 65 \<le> n \<and> n \<le> 90 then char_of (n + 32) else c)"

definition split_sign :: "string \<Rightarrow> bool \<times> string" where
  "split_sign s =
     (case s of
        [] \<Rightarrow> (False, [])
      | c # cs \<Rightarrow>
          if c = CHR ''-'' then (True, cs)
          else if c = CHR ''+'' then (False, cs)
          else (False, c # cs))"

text \<open>
  A decimal numeral \<^verbatim>\<open>digits [. digits] [e [sign] digits]\<close> with at least one digit before
  the exponent; its exact value.
\<close>

definition parse_exponent :: "string \<Rightarrow> int option" where
  "parse_exponent s =
     (case s of
        [] \<Rightarrow> Some 0
      | c # cs \<Rightarrow>
          if lower_char c = CHR ''e'' then
            (let (neg, ds) = split_sign cs in
             if all_digits ds then Some (if neg then - int (digits_val ds) else int (digits_val ds))
             else None)
          else None)"

definition pow10 :: "int \<Rightarrow> rat" where
  "pow10 k = (if 0 \<le> k then 10 ^ nat k else 1 / 10 ^ nat (- k))"

definition parse_decimal :: "string \<Rightarrow> rat option" where
  "parse_decimal s =
     (let ip = takeWhile is_digit s;
          r = dropWhile is_digit s;
          fp = (case r of [] \<Rightarrow> [] | c # cs \<Rightarrow> if c = CHR ''.'' then takeWhile is_digit cs else []);
          r' = (case r of [] \<Rightarrow> [] | c # cs \<Rightarrow> if c = CHR ''.'' then dropWhile is_digit cs else r)
      in if ip = [] \<and> fp = [] then None
         else (case parse_exponent r' of
                 None \<Rightarrow> None
               | Some e \<Rightarrow>
                   Some ((of_nat (digits_val ip) + of_nat (digits_val fp) / 10 ^ length fp)
                         * pow10 e)))"

text \<open>\<^verbatim>\<open>float(s)\<close> for text.\<close>

definition float_of_string :: "string \<Rightarrow> py_error + pyfloat" where
  "float_of_string s =
     (let (neg, u) = split_sign (strip s); l = map lower_char u in
      if l = ''inf'' \<or> l = ''infinity'' then Inr (if neg then NegInf else PosInf)
      else if l = ''nan'' then Inr NaN
      else (case parse_decimal u of
              None \<Rightarrow> Inl ValueError
            | Some q \<Rightarrow> Inr (round_to_double (if neg then - q else q))))"

subsection \<open>The builtins \<^verbatim>\<open>int\<close>, \<^verbatim>\<open>float\<close> and the \<^verbatim>\<open>%f\<close> conversion on values\<close>

fun py_int :: "pyval \<Rightarrow> py_error + int" where
  "py_int PNone = Inl TypeError"
| "py_int (PBool b) = Inr (if b then 1 else 0)"
| "py_int (PInt n) = Inr n"
| "py_int (PFloat (Finite q)) = Inr (if 0 \<le> q then \<lfloor>q\<rfloor> else - \<lfloor>- q\<rfloor>)"
| "py_int (PFloat NaN) = Inl ValueError"
| "py_int (PFloat f) = Inl OverflowError"
| "py_int (PStr s) = int_of_string s"
| "py_int (PDateTime s us) = Inl TypeError"
| "py_int (PDate d) = Inl TypeError"
| "py_int (PSeq xs) = Inl TypeError"

definition float_of_int :: "int \<Rightarrow> py_error + pyfloat" where
  "float_of_int n =
     (case round_to_double (of_int n) of
        Finite q \<Rightarrow> Inr (Finite q)
      | f \<Rightarrow> Inl OverflowError)"

fun py_float :: "pyval \<Rightarrow> py_error + pyfloat" where
  "py_float PNone = Inl TypeError"
| "py_float (PBool b) = Inr (Finite (if b then 1 else 0))"
| "py_float (PInt n) = float_of_int n"
| "py_float (PFloat f) = Inr f"
| "py_float (PStr s) = float_of_string s"
| "py_float (PDateTime s us) = Inl TypeError"
| "py_float (PDate d) = Inl TypeError"
| "py_float (PSeq xs) = Inl TypeError"

text \<open>\<^verbatim>\<open>"%f" % value\<close>: a number is converted to a float first; text is refused.\<close>

fun percent_f :: "pyval \<Rightarrow> py_error + string" where
  "percent_f (PStr s) = Inl TypeError"
| "percent_f v = (case py_float v of Inl e \<Rightarrow> Inl e | Inr f \<Rightarrow> Inr (format_f f))"

text \<open>
  \<^verbatim>\<open>datetime.fromtimestamp(n)\<close> and \<^verbatim>\<open>date.fromtimestamp(n)\<close>: the years 1 to 9999 are
  representable; a timestamp outside them is a \<^verbatim>\<open>ValueError\<close>.
\<close>

definition min_timestamp :: int where
  "min_timestamp = - 62135596800"

definition max_timestamp :: int where
  "max_timestamp = 253402300799"

definition datetime_fromtimestamp :: "int \<Rightarrow> py_error + pyval" where
  "datetime_fromtimestamp n =
     (if min_timestamp \<le> n \<and> n \<le> max_timestamp then Inr (PDateTime n 0) else Inl ValueError)"

definition date_fromtimestamp :: "int \<Rightarrow> py_error + pyval" where
  "date_fromtimestamp n =
     (if min_timestamp \<le> n \<and> n \<le> max_timestamp then Inr (PDate (n div 86400))
      else Inl ValueError)"

text \<open>\<^verbatim>\<open>int(time.mktime(value.timetuple()))\<close> for a date or a datetime.\<close>

fun mktime_timetuple :: "pyval \<Rightarrow> int" where
  "mktime_timetuple (PDateTime s us) = s"
| "mktime_timetuple (PDate d) = 86400 * d"
| "mktime_timetuple v = 0"

section \<open>Attribute descriptors (\<^verbatim>\<open>orm/attributes.py\<close>)\<close>

text \<open>
  The descriptor classes.  \<open>CharField m\<close> carries \<^verbatim>\<open>max_length\<close>; \<open>DateTimeField a b\<close> and
  \<open>DateField a b\<close> carry \<^verbatim>\<open>auto_now\<close> and \<^verbatim>\<open>auto_now_add\<close>.  \<open>Counter\<close> is a subclass of
  \<open>IntegerField\<close>, and every class here is a subclass of \<open>Attribute\<close>.
\<close>

datatype field_kind =
    Attribute
  | CharField nat
  | BooleanField
  | IntegerField
  | FloatField
  | DateTimeField bool bool
  | DateField bool bool
  | Counter

text \<open>
  \<^verbatim>\<open>typecast_for_read\<close>, by class.  The date and datetime fields write
  \<^verbatim>\<open>except TypeError, ValueError:\<close>, which in Python 2 catches \<^verbatim>\<open>TypeError\<close> only and binds the
  caught exception to the name \<^verbatim>\<open>ValueError\<close>: every other exception of the \<^verbatim>\<open>try\<close> body
  propagates.  \<open>Attribute\<close> returns text as it is; a value without a \<^verbatim>\<open>decode\<close> method is an
  \<^verbatim>\<open>AttributeError\<close>.
\<close>

fun typecast_for_read :: "field_kind \<Rightarrow> pyval \<Rightarrow> py_error + pyval" where
  "typecast_for_read BooleanField v =
     (case py_int v of Inl e \<Rightarrow> Inl e | Inr n \<Rightarrow> Inr (PBool (n \<noteq> 0)))"
| "typecast_for_read IntegerField v =
     (case py_int v of Inl e \<Rightarrow> Inl e | Inr n \<Rightarrow> Inr (PInt n))"
| "typecast_for_read Counter v =
     (case py_int v of Inl e \<Rightarrow> Inl e | Inr n \<Rightarrow> Inr (PInt n))"
| "typecast_for_read FloatField v =
     (case py_float v of Inl e \<Rightarrow> Inl e | Inr f \<Rightarrow> Inr (PFloat f))"
| "typecast_for_read (DateTimeField a b) v =
     (case py_int v of
        Inl e \<Rightarrow> if e = TypeError then Inr PNone else Inl e
      | Inr n \<Rightarrow>
          (case datetime_fromtimestamp n of
             Inl e \<Rightarrow> if e = TypeError then Inr PNone else Inl e
           | Inr d \<Rightarrow> Inr d))"
| "typecast_for_read (DateField a b) v =
     (case py_int v of
        Inl e \<Rightarrow> if e = TypeError then Inr PNone else Inl e
      | Inr n \<Rightarrow>
          (case date_fromtimestamp n of
             Inl e \<Rightarrow> if e = TypeError then Inr PNone else Inl e
           | Inr d \<Rightarrow> Inr d))"
| "typecast_for_read k (PStr s) = Inr (PStr s)"
| "typecast_for_read k v = Inl AttributeError"

text \<open>
  The process-wide context of an operation: the mode flag \<^verbatim>\<open>is_async()\<close>, the reading of the
  clock \<^verbatim>\<open>datetime.now()\<close>, and two library functions the layer calls and does not define:
  \<^verbatim>\<open>unicode(v)\<close> on a float, a date or a container, and the JSON helper
  \<^verbatim>\<open>deserialize(s, ignore_error=True)\<close>.
\<close>

record env =
  is_async :: bool
  now :: pyval
  unicode_other :: "pyval \<Rightarrow> string"
  deserialize :: "string \<Rightarrow> pyval"

fun py_unicode :: "env \<Rightarrow> pyval \<Rightarrow> string" where
  "py_unicode E PNone = ''None''"
| "py_unicode E (PBool b) = (if b then ''True'' else ''False'')"
| "py_unicode E (PInt n) = str_int n"
| "py_unicode E (PStr s) = s"
| "py_unicode E v = unicode_other E v"

fun typecast_for_storage :: "env \<Rightarrow> field_kind \<Rightarrow> pyval \<Rightarrow> py_error + pyval" where
  "typecast_for_storage E BooleanField v = Inr (PStr (if truthy v then ''1'' else ''0''))"
| "typecast_for_storage E IntegerField v =
     (if v = PNone then Inr (PStr ''0'') else Inr (PStr (py_unicode E v)))"
| "typecast_for_storage E Counter v =
     (if v = PNone then Inr (PStr ''0'') else Inr (PStr (py_unicode E v)))"
| "typecast_for_storage E FloatField v =
     (if v = PNone then Inr (PStr ''0'')
      else (case percent_f v of Inl e \<Rightarrow> Inl e | Inr t \<Rightarrow> Inr (PStr t)))"
| "typecast_for_storage E (DateTimeField a b) v =
     (case v of
        PDateTime s us \<Rightarrow> Inr (PStr (str_int (mktime_timetuple v)))
      | _ \<Rightarrow> Inl TypeError)"
| "typecast_for_storage E (DateField a b) v =
     (case v of
        PDateTime s us \<Rightarrow> Inr (PStr (str_int (mktime_timetuple v)))
      | PDate d \<Rightarrow> Inr (PStr (str_int (mktime_timetuple v)))
      | _ \<Rightarrow> Inl TypeError)"
| "typecast_for_storage E k v = Inr (PStr (py_unicode E v))"

definition read_after_store :: "env \<Rightarrow> field_kind \<Rightarrow> pyval \<Rightarrow> py_error + pyval" where
  "read_after_store E k v =
     (case typecast_for_storage E k v of Inl e \<Rightarrow> Inl e | Inr t \<Rightarrow> typecast_for_read k t)"

text \<open>A context for the closed examples: synchronous mode.\<close>

definition test_env :: env where
  "test_env = \<lparr>is_async = False, now = PDateTime 1700000000 0,
               unicode_other = (\<lambda>v. ''<object>''), deserialize = PStr\<rparr>"


text \<open>Rounding to six decimal places, the precision of the text \<^verbatim>\<open>"%f"\<close> writes.\<close>

definition round6 :: "rat \<Rightarrow> rat" where
  "round6 q = (if q < 0 then - 1 else 1) * of_int (round_half_even (\<bar>q\<bar> * 1000000)) / 1000000"

section \<open>Decimal text: writing a number and reading it back\<close>

lemma digit_char_is_digit: "d < 10 \<Longrightarrow> is_digit (digit_char d)"
proof -
  assume "d < 10"
  then have "d \<in> {0,1,2,3,4,5,6,7,8,9}" by auto
  then show ?thesis by (auto simp: is_digit_def digit_char_def)
qed

lemma digit_val_digit_char: "d < 10 \<Longrightarrow> digit_val (digit_char d) = d"
proof -
  assume "d < 10"
  then have "d \<in> {0,1,2,3,4,5,6,7,8,9}" by auto
  then show ?thesis by (auto simp: digit_val_def digit_char_def)
qed

lemma str_nat_digits: "list_all is_digit (str_nat n)"
proof (induction n rule: str_nat.induct)
  case (1 n)
  show ?case
  proof (cases "n < 10")
    case True
    then show ?thesis by (subst str_nat.simps) (simp add: digit_char_is_digit)
  next
    case False
    with 1 show ?thesis by (subst str_nat.simps) (simp add: digit_char_is_digit)
  qed
qed

lemma str_nat_nonempty: "str_nat n \<noteq> []"
  by (subst str_nat.simps) simp

lemma digits_val_snoc: "digits_val (s @ [c]) = 10 * digits_val s + digit_val c"
  by (simp add: digits_val_def)

lemma digits_val_str_nat: "digits_val (str_nat n) = n"
proof (induction n rule: str_nat.induct)
  case (1 n)
  show ?case
  proof (cases "n < 10")
    case True
    then show ?thesis by (subst str_nat.simps) (simp add: digits_val_def digit_val_digit_char)
  next
    case False
    with 1 show ?thesis
      by (subst str_nat.simps) (simp add: digits_val_snoc digit_val_digit_char)
  qed
qed

lemma not_space_digit: "is_digit c \<Longrightarrow> \<not> is_space c"
  by (auto simp: is_digit_def is_space_def)

lemma strip_id:
  assumes "s \<noteq> []" "\<not> is_space (hd s)" "\<not> is_space (last s)"
  shows "strip s = s"
proof -
  from assms have a: "dropWhile is_space s = s" by (cases s) auto
  from assms have "rev s \<noteq> []" "\<not> is_space (hd (rev s))" by (auto simp: hd_rev)
  then have b: "dropWhile is_space (rev s) = rev s" by (cases "rev s") auto
  show ?thesis by (simp add: strip_def a b)
qed

lemma all_digits_str_nat: "all_digits (str_nat n)"
  by (simp add: all_digits_def str_nat_nonempty str_nat_digits)

lemma hd_digit: "s \<noteq> [] \<Longrightarrow> list_all is_digit s \<Longrightarrow> is_digit (hd s)"
  by (cases s) auto

lemma last_digit: "s \<noteq> [] \<Longrightarrow> list_all is_digit s \<Longrightarrow> is_digit (last s)"
  by (auto simp: list_all_iff)

lemma strip_str_nat: "strip (str_nat n) = str_nat n"
  by (rule strip_id) (auto intro!: not_space_digit hd_digit last_digit simp: str_nat_nonempty str_nat_digits)

lemma int_of_string_str_int: "int_of_string (str_int n) = Inr n"
proof (cases "n < 0")
  case True
  have sp: "\<not> is_space CHR ''-''" by (simp add: is_space_def)
  have "strip (CHR ''-'' # str_nat (nat (- n))) = CHR ''-'' # str_nat (nat (- n))"
    by (rule strip_id) (auto simp: sp str_nat_nonempty intro!: not_space_digit last_digit str_nat_digits)
  with True show ?thesis
    by (simp add: int_of_string_def str_int_def all_digits_str_nat digits_val_str_nat)
next
  case False
  obtain c cs where cs: "str_nat (nat n) = c # cs" using str_nat_nonempty by (cases "str_nat (nat n)") auto
  have "is_digit c" using hd_digit[of "str_nat (nat n)"] cs str_nat_digits[of "nat n"] by simp 
  then have c: "c \<noteq> CHR ''-''" "c \<noteq> CHR ''+''" by (auto simp: is_digit_def)
  have ad: "all_digits (c # cs)" using all_digits_str_nat[of "nat n"] cs by simp
  have dv: "digits_val (c # cs) = nat n" using digits_val_str_nat[of "nat n"] cs by simp
  have st: "strip (c # cs) = c # cs" using strip_str_nat[of "nat n"] cs by simp
  from False show ?thesis
    by (simp add: int_of_string_def str_int_def cs st c ad dv)
qed

lemma round_half_even_nonneg: "0 \<le> q \<Longrightarrow> 0 \<le> round_half_even q"
  by (auto simp: round_half_even_def Let_def)

lemma digits_val_replicate0: "digits_val (replicate k CHR ''0'' @ s) = digits_val s"
proof -
  have "foldl (\<lambda>a c. 10 * a + digit_val c) 0 (replicate k CHR ''0'') = 0"
    by (induction k) (auto simp: digit_val_def)
  then show ?thesis by (simp add: digits_val_def)
qed

lemma length_str_nat: "n < 10 ^ k \<Longrightarrow> 0 < k \<Longrightarrow> length (str_nat n) \<le> k"
proof (induction n arbitrary: k rule: str_nat.induct)
  case (1 n)
  show ?case
  proof (cases "n < 10")
    case True
    with 1(3) show ?thesis by (subst str_nat.simps) simp
  next
    case False
    then obtain j where k: "k = Suc j" using 1(3) by (cases k) auto
    from False 1(2) k have j: "0 < j" by (cases j) auto
    from 1(2) k have "n div 10 < 10 ^ j" by (simp add: less_mult_imp_div_less mult.commute)
    with 1(1)[OF False _ j] have "length (str_nat (n div 10)) \<le> j" by simp
    with False k show ?thesis by (subst str_nat.simps) simp
  qed
qed

lemma pad6_props:
  assumes "m < 1000000"
  shows "length (pad6 (str_nat m)) = 6" "list_all is_digit (pad6 (str_nat m))"
    "digits_val (pad6 (str_nat m)) = m"
proof -
  have "length (str_nat m) \<le> 6" using length_str_nat[of m 6] assms by simp
  then show "length (pad6 (str_nat m)) = 6" by (simp add: pad6_def)
  have "list_all is_digit (replicate (6 - length (str_nat m)) CHR ''0'')"
    by (simp add: list_all_iff is_digit_def)
  then show "list_all is_digit (pad6 (str_nat m))"
    by (simp add: pad6_def str_nat_digits)
  show "digits_val (pad6 (str_nat m)) = m"
    by (simp add: pad6_def digits_val_replicate0 digits_val_str_nat)
qed

lemma not_digit_dot: "\<not> is_digit CHR ''.''"
  by (simp add: is_digit_def)

lemma takeWhile_all: "list_all P xs \<Longrightarrow> takeWhile P xs = xs"
  by (induction xs) auto

lemma dropWhile_all: "list_all P xs \<Longrightarrow> dropWhile P xs = []"
  by (induction xs) auto

lemma takeWhile_digits_then: "list_all is_digit xs \<Longrightarrow> \<not> is_digit c \<Longrightarrow> takeWhile is_digit (xs @ c # ys) = xs"
  by (induction xs) auto

lemma dropWhile_digits_then: "list_all is_digit xs \<Longrightarrow> \<not> is_digit c \<Longrightarrow> dropWhile is_digit (xs @ c # ys) = c # ys"
  by (induction xs) auto

lemma parse_decimal_fixed:
  assumes "list_all is_digit ip" "ip \<noteq> []" "list_all is_digit fp"
  shows "parse_decimal (ip @ CHR ''.'' # fp) =
    Some (of_nat (digits_val ip) + of_nat (digits_val fp) / 10 ^ length fp)"
  using assms
  by (simp add: parse_decimal_def Let_def takeWhile_digits_then dropWhile_digits_then not_digit_dot
      takeWhile_all dropWhile_all parse_exponent_def pow10_def)

lemma lower_char_digit: "is_digit c \<Longrightarrow> lower_char c = c"
  by (auto simp: is_digit_def lower_char_def)

lemma digit_first_not_special:
  assumes "s \<noteq> []" "is_digit (hd s)"
  shows "map lower_char s \<noteq> ''inf''" "map lower_char s \<noteq> ''infinity''" "map lower_char s \<noteq> ''nan''"
proof -
  obtain c cs where s: "s = c # cs" using assms(1) by (cases s) auto
  with assms(2) have "lower_char c = c" "is_digit c" by (auto simp: lower_char_digit)
  then have "lower_char c \<noteq> CHR ''i''" "lower_char c \<noteq> CHR ''n''" by (auto simp: is_digit_def)
  with s show "map lower_char s \<noteq> ''inf''" "map lower_char s \<noteq> ''infinity''" "map lower_char s \<noteq> ''nan''"
    by auto
qed

lemma float_of_string_format_f:
  "float_of_string (format_f (Finite q)) = Inr (round_to_double (round6 q))"
proof -
  define n where "n = nat (round_half_even (\<bar>q\<bar> * 1000000))"
  define ip where "ip = str_nat (n div 1000000)"
  define fp where "fp = pad6 (str_nat (n mod 1000000))"
  define body where "body = ip @ CHR ''.'' # fp"
  have n: "of_nat n = (of_int (round_half_even (\<bar>q\<bar> * 1000000)) :: rat)"
    using round_half_even_nonneg[of "\<bar>q\<bar> * 1000000"] by (simp add: n_def)
  have ip: "list_all is_digit ip" "ip \<noteq> []" "digits_val ip = n div 1000000"
    by (simp_all add: ip_def str_nat_digits str_nat_nonempty digits_val_str_nat)
  have fp: "length fp = 6" "list_all is_digit fp" "digits_val fp = n mod 1000000"
    using pad6_props[of "n mod 1000000"] by (simp_all add: fp_def)
  have fmt: "format_f (Finite q) = (if q < 0 then CHR ''-'' # body else body)"
    by (simp add: format_fixed_def n_def ip_def fp_def body_def)
  have body_ne: "body \<noteq> []" by (simp add: body_def)
  have hd_body: "is_digit (hd body)" using ip by (cases ip) (auto simp: body_def)
  have last_body: "is_digit (last body)"
    using fp by (cases fp rule: rev_cases) (auto simp: body_def)
  have val: "parse_decimal body = Some (of_nat n / 1000000)"
  proof -
    have "(of_nat (n div 1000000) + of_nat (n mod 1000000) / 1000000 :: rat) = of_nat n / 1000000"
    proof -
      have "(of_nat n :: rat) = of_nat (n div 1000000 * 1000000 + n mod 1000000)" by simp
      also have "\<dots> = of_nat (n div 1000000) * 1000000 + of_nat (n mod 1000000)"
        by (simp only: of_nat_add of_nat_mult of_nat_numeral)
      finally show ?thesis by (simp add: field_simps)
    qed
    then show ?thesis
      unfolding body_def using parse_decimal_fixed[OF ip(1) ip(2) fp(2)] ip(3) fp(1) fp(3) by simp
  qed
  have sgn: "hd body \<noteq> CHR ''-''" "hd body \<noteq> CHR ''+''"
    using hd_body by (auto simp: is_digit_def)
  have ss_pos: "split_sign body = (False, body)"
    using body_ne sgn by (cases body) (auto simp: split_sign_def)
  show ?thesis
  proof (cases "q < 0")
    case True
    have "strip (CHR ''-'' # body) = CHR ''-'' # body"
      using body_ne last_body by (intro strip_id) (auto simp: is_space_def dest: not_space_digit)
    with True show ?thesis
      using digit_first_not_special[OF body_ne hd_body] val n
      by (simp add: float_of_string_def fmt split_sign_def round6_def del: format_f.simps)
  next
    case False
    have "strip body = body"
      using body_ne hd_body last_body by (intro strip_id) (auto dest: not_space_digit)
    with False show ?thesis
      using digit_first_not_special[OF body_ne hd_body] val n ss_pos
      by (simp add: float_of_string_def fmt round6_def del: format_f.simps)
  qed
qed

section \<open>Reading malformed date text\<close>

text \<open>
  C2.  The claim is that the read-cast of the date and datetime fields never raises and
  yields \<^verbatim>\<open>None\<close> for any text that is not an epoch-second integer.  On the text \<^verbatim>\<open>abc\<close>
  both fields raise \<^verbatim>\<open>ValueError\<close>: \<^verbatim>\<open>int('abc')\<close> raises it and the handler catches
  \<^verbatim>\<open>TypeError\<close> only.
\<close>

theorem date_read_cast_raises_on_malformed_text:
  "typecast_for_read (DateTimeField False False) (PStr ''abc'') = Inl ValueError \<and>
   typecast_for_read (DateField False False) (PStr ''abc'') = Inl ValueError"
  by (simp add: int_of_string_def strip_def is_space_def all_digits_def is_digit_def)

section \<open>Round trip of the casts\<close>

lemma round_half_even_of_int: "round_half_even (of_int k) = k"
  by (simp add: round_half_even_def)

lemma round6_exact:
  assumes "q * 1000000 \<in> \<int>"
  shows "round6 q = q"
proof -
  from assms obtain k where k: "q * 1000000 = of_int k" by (auto elim: Ints_cases)
  show ?thesis
  proof (cases "q < 0")
    case True
    then have "\<bar>q\<bar> * 1000000 = of_int (- k)" using k by simp
    then have "round_half_even (\<bar>q\<bar> * 1000000) = - k" by (simp only: round_half_even_of_int)
    with True k show ?thesis by (simp add: round6_def) 
  next
    case False
    then have "\<bar>q\<bar> * 1000000 = of_int k" using k by simp
    then have "round_half_even (\<bar>q\<bar> * 1000000) = k" by (simp only: round_half_even_of_int)
    with False k show ?thesis by (simp add: round6_def) 
  qed
qed

lemma read_after_store_float:
  "read_after_store E FloatField (PFloat (Finite q)) = Inr (PFloat (round_to_double (round6 q)))"
  by (simp add: read_after_store_def float_of_string_format_f del: format_f.simps)

text \<open>
  C3, as amended.  \<^verbatim>\<open>typecast_for_read\<close> after \<^verbatim>\<open>typecast_for_storage\<close> returns the original
  for every bool, every int and every text value; a datetime comes back with its
  microseconds dropped and a date comes back as it was.  A float is written with six decimal
  places, so what comes back is the double nearest to the original rounded to six places:
  it is the original when the float has at most six decimal places.
\<close>

theorem typecast_round_trip:
  "read_after_store E BooleanField (PBool b) = Inr (PBool b) \<and>
   read_after_store E IntegerField (PInt n) = Inr (PInt n) \<and>
   read_after_store E Attribute (PStr s) = Inr (PStr s) \<and>
   read_after_store E (CharField m) (PStr s) = Inr (PStr s) \<and>
   read_after_store E FloatField (PFloat (Finite q)) =
     Inr (PFloat (round_to_double (round6 q))) \<and>
   (round_to_double q = Finite q \<and> q * 1000000 \<in> \<int> \<longrightarrow>
     read_after_store E FloatField (PFloat (Finite q)) = Inr (PFloat (Finite q))) \<and>
   (min_timestamp \<le> t \<and> t \<le> max_timestamp \<longrightarrow>
     read_after_store E (DateTimeField a c) (PDateTime t us) = Inr (PDateTime t 0)) \<and>
   (min_timestamp \<le> 86400 * d \<and> 86400 * d \<le> max_timestamp \<longrightarrow>
     read_after_store E (DateField a c) (PDate d) = Inr (PDate d))"
proof -
  have 1: "read_after_store E BooleanField (PBool b) = Inr (PBool b)"
    by (cases b) (simp_all add: read_after_store_def int_of_string_def strip_def is_space_def
        all_digits_def is_digit_def digits_val_def digit_val_def)
  have 2: "read_after_store E IntegerField (PInt n) = Inr (PInt n)"
    by (simp add: read_after_store_def int_of_string_str_int)
  have 3: "read_after_store E Attribute (PStr s) = Inr (PStr s)"
    by (simp add: read_after_store_def)
  have 4: "read_after_store E (CharField m) (PStr s) = Inr (PStr s)"
    by (simp add: read_after_store_def)
  have 5: "round_to_double q = Finite q \<and> q * 1000000 \<in> \<int> \<longrightarrow>
     read_after_store E FloatField (PFloat (Finite q)) = Inr (PFloat (Finite q))"
    by (simp add: read_after_store_float round6_exact)
  have 6: "min_timestamp \<le> t \<and> t \<le> max_timestamp \<longrightarrow>
     read_after_store E (DateTimeField a c) (PDateTime t us) = Inr (PDateTime t 0)"
    by (simp add: read_after_store_def int_of_string_str_int datetime_fromtimestamp_def)
  have 7: "min_timestamp \<le> 86400 * d \<and> 86400 * d \<le> max_timestamp \<longrightarrow>
     read_after_store E (DateField a c) (PDate d) = Inr (PDate d)"
    by (simp add: read_after_store_def int_of_string_str_int date_fromtimestamp_def)
  from 1 2 3 4 5 6 7 read_after_store_float [of E q] show ?thesis by blast
qed

lemma round_half_even_numeral: "round_half_even (numeral k) = numeral k"
  using round_half_even_of_int [of "numeral k"] by simp

lemma quotient_of_half: "quotient_of (1 / 2) = (1, 2)"
proof -
  have "(1 / 2 :: rat) = Fract 1 2" by (simp add: Fract_of_int_quotient)
  then show ?thesis by (simp only: quotient_of_Fract) simp
qed

lemma ilog2_half: "ilog2 (1 / 2) = - 1"
  by (simp add: ilog2_def quotient_of_half compute_floorlog pow2_def)

lemma half_is_double: "round_to_double (1 / 2) = Finite (1 / 2)"
  by (simp add: round_to_double_def round_pos_double_def ilog2_half pow2_def
      round_half_even_numeral)

theorem typecast_round_trip_witness:
  "round_to_double (1 / 2) = Finite (1 / 2) \<and> (1 / 2 :: rat) * 1000000 \<in> \<int> \<and>
   min_timestamp \<le> 1700000000 \<and> 1700000000 \<le> max_timestamp \<and>
   min_timestamp \<le> 86400 * 19000 \<and> 86400 * 19000 \<le> max_timestamp \<and>
   read_after_store test_env BooleanField (PBool True) = Inr (PBool True) \<and>
   read_after_store test_env IntegerField (PInt (- 42)) = Inr (PInt (- 42)) \<and>
   read_after_store test_env Attribute (PStr ''ok'') = Inr (PStr ''ok'') \<and>
   read_after_store test_env FloatField (PFloat (Finite (1 / 2))) = Inr (PFloat (Finite (1 / 2))) \<and>
   read_after_store test_env (DateTimeField False False) (PDateTime 1700000000 250) =
     Inr (PDateTime 1700000000 0) \<and>
   read_after_store test_env (DateField False False) (PDate 19000) = Inr (PDate 19000)"
proof -
  have h1: "round_to_double (1 / 2) = Finite (1 / 2) \<and> (1 / 2 :: rat) * 1000000 \<in> \<int>"
    by (simp add: half_is_double)
  have h2: "min_timestamp \<le> 1700000000 \<and> 1700000000 \<le> max_timestamp"
    by (simp add: min_timestamp_def max_timestamp_def)
  have h3: "min_timestamp \<le> 86400 * 19000 \<and> 86400 * 19000 \<le> max_timestamp"
    by (simp add: min_timestamp_def max_timestamp_def)
  from h1 h2 h3
    typecast_round_trip [of test_env True "- 42" "''ok''" 0 "1 / 2" 1700000000 False False 250 19000]
  show ?thesis by blast
qed

text \<open>
  C3, as stated, fails on floats: \<open>2\<^sup>-\<^sup>2\<^sup>1\<close> is a double, it is written as
  \<^verbatim>\<open>0.000000\<close>, and that text reads back as \<open>0.0\<close>.
\<close>

lemma round6_small: "round6 (1 / 2097152) = 0"
  by code_simp

lemma quotient_of_small: "quotient_of (1 / 2097152) = (1, 2097152)"
proof -
  have "(1 / 2097152 :: rat) = Fract 1 2097152" by (simp add: Fract_of_int_quotient)
  then show ?thesis by (simp only: quotient_of_Fract) simp
qed

lemma ilog2_small: "ilog2 (1 / 2097152) = - 21"
  by (simp add: ilog2_def quotient_of_small compute_floorlog pow2_def)

lemma small_is_double: "round_to_double (1 / 2097152) = Finite (1 / 2097152)"
  by (simp add: round_to_double_def round_pos_double_def ilog2_small pow2_def
      round_half_even_numeral)

theorem float_round_trip_counterexample:
  "round_to_double (1 / 2097152) = Finite (1 / 2097152) \<and>
   read_after_store test_env FloatField (PFloat (Finite (1 / 2097152))) = Inr (PFloat (Finite 0)) \<and>
   PFloat (Finite 0) \<noteq> PFloat (Finite (1 / 2097152))"
  by (simp add: read_after_store_float round6_small small_is_double) (simp add: round_to_double_def)

section \<open>The key-value store\<close>

text \<open>
  The store is the external collaborator.  A key holds a string or a hash; \<open>world\<close> is
  what an operation can observe and change: the store's contents, the commands issued to
  it so far (reads included), and the clock that \<^verbatim>\<open>time.time()\<close> reads.  A command on a key
  of the wrong type is the client's \<^verbatim>\<open>ResponseError\<close>.
\<close>

datatype rvalue = RString string | RHash "string \<Rightarrow> string option"

datatype command =
    INCR string
  | HGET string string
  | HMSET string "string \<Rightarrow> string option"
  | DEL string
  | EXISTS string
  | HINCRBY string string int
  | SETNX string string
  | GET string
  | GETSET string string

record world =
  store :: "string \<Rightarrow> rvalue option"
  issued :: "command list"
  clock :: rat

definition issue :: "command \<Rightarrow> world \<Rightarrow> world" where
  "issue c w = w\<lparr>issued := issued w @ [c]\<rparr>"

definition hget :: "string \<Rightarrow> string \<Rightarrow> world \<Rightarrow> py_error + (string option \<times> world)" where
  "hget k f w =
     (case store w k of
        None \<Rightarrow> Inr (None, issue (HGET k f) w)
      | Some (RHash h) \<Rightarrow> Inr (h f, issue (HGET k f) w)
      | Some (RString s) \<Rightarrow> Inl ResponseError)"

definition incr :: "string \<Rightarrow> world \<Rightarrow> py_error + (int \<times> world)" where
  "incr k w =
     (case store w k of
        None \<Rightarrow> Inr (1, (issue (INCR k) w)\<lparr>store := (store w)(k \<mapsto> RString (str_int 1))\<rparr>)
      | Some (RString s) \<Rightarrow>
          (case int_of_string s of
             Inl e \<Rightarrow> Inl ResponseError
           | Inr n \<Rightarrow>
               Inr (n + 1, (issue (INCR k) w)\<lparr>store := (store w)(k \<mapsto> RString (str_int (n + 1)))\<rparr>))
      | Some (RHash h) \<Rightarrow> Inl ResponseError)"


definition exists_key :: "string \<Rightarrow> world \<Rightarrow> bool \<times> world" where
  "exists_key k w = (store w k \<noteq> None, issue (EXISTS k) w)"

definition delete :: "string \<Rightarrow> world \<Rightarrow> world" where
  "delete k w = (issue (DEL k) w)\<lparr>store := (store w)(k := None)\<rparr>"

definition hmset :: "string \<Rightarrow> (string \<Rightarrow> string option) \<Rightarrow> world \<Rightarrow> py_error + world" where
  "hmset k m w =
     (case store w k of
        None \<Rightarrow> Inr ((issue (HMSET k m) w)\<lparr>store := (store w)(k \<mapsto> RHash m)\<rparr>)
      | Some (RHash h) \<Rightarrow> Inr ((issue (HMSET k m) w)\<lparr>store := (store w)(k \<mapsto> RHash (h ++ m))\<rparr>)
      | Some (RString s) \<Rightarrow> Inl ResponseError)"

section \<open>Record types and instances (\<^verbatim>\<open>orm/base.py\<close>)\<close>

text \<open>
  A descriptor (\<open>attribute\<close>) carries \<^verbatim>\<open>name\<close>, \<^verbatim>\<open>required\<close>, \<^verbatim>\<open>default\<close>, \<^verbatim>\<open>validator\<close> and
  its class (\<open>att_kind\<close>); an empty \<open>att_name\<close> is a name not given.  A validator returns
  the list of its errors.  A class body binds a name to a field descriptor or to a plain
  value (\<open>declared\<close>).  A record instance (\<open>inst\<close>) has its class, the attribute \<^verbatim>\<open>_id\<close> when
  set, \<^verbatim>\<open>_errors\<close>, and the other entries of its \<^verbatim>\<open>__dict__\<close> by name (\<open>inst_dict\<close>):
  \<^verbatim>\<open>Attribute.__set__\<close> keeps the value of a field there under \<^verbatim>\<open>_<name>\<close>.  A record type
  (\<open>model_class\<close>) has \<^verbatim>\<open>_attributes\<close>, \<^verbatim>\<open>_references\<close> and \<^verbatim>\<open>_counters\<close> as the metaclass
  builds them (a dict is an association list in its iteration order), the key prefix
  \<^verbatim>\<open>_key\<close>, the names of the class and its ancestors, the overridable hook \<^verbatim>\<open>validate\<close>,
  which returns the errors it appends, and \<open>namespace\<close>: what attribute lookup on the class
  finds for a name, the bindings of the class before those of its parents.  No name
  bound in a class body begins with an underscore and no field is named \<^verbatim>\<open>id\<close> or
  \<^verbatim>\<open>errors\<close>: the names \<^verbatim>\<open>_<field>\<close>, \<^verbatim>\<open>_id\<close> and \<^verbatim>\<open>_errors\<close> are the instance's own.
\<close>

record attribute =
  att_name :: string
  att_required :: bool
  att_default :: pyval
  att_validator :: "(string \<Rightarrow> pyval \<Rightarrow> (string \<times> string) list) option"
  att_kind :: field_kind

record reference =
  ref_name :: string
  ref_required :: bool
  ref_default :: pyval
  ref_validator :: "(string \<Rightarrow> pyval \<Rightarrow> (string \<times> string) list) option"
  ref_target :: string
  ref_attname :: string

datatype declared = DAttribute attribute | DReference reference | DValue pyval

record inst =
  inst_class :: string
  inst_id :: "string option"
  inst_dict :: "string \<Rightarrow> pyval option"
  errors :: "(string \<times> string) list"

record model_class =
  cls_name :: string
  cls_mro :: "string list"
  namespace :: "(string \<times> declared) list"
  attributes :: "(string \<times> attribute) list"
  references :: "(string \<times> reference) list"
  counters :: "string list"
  key_prefix :: string
  validate_hook :: "inst \<Rightarrow> (string \<times> string) list"

definition is_new :: "inst \<Rightarrow> bool" where
  "is_new i = (inst_id i = None)"

text \<open>
  Modelled from the spec: \<^verbatim>\<open>orm/key.py\<close> (the class \<^verbatim>\<open>Key\<close>) is not among the sources.  The spec
  lays a record out under \<^verbatim>\<open><type-prefix>:<identity>\<close>, the identity counter under
  \<^verbatim>\<open><type-prefix>:id\<close> and the lock under \<^verbatim>\<open><type-prefix>:<identity>:_lock\<close>: indexing a key
  appends the separator \<^verbatim>\<open>:\<close> and the part.
\<close>

definition Key_getitem :: "string \<Rightarrow> string \<Rightarrow> string" where
  "Key_getitem k part = k @ '':'' @ part"

text \<open>\<^verbatim>\<open>Model.key(att=None)\<close>; reading \<^verbatim>\<open>self.id\<close> raises \<^verbatim>\<open>MissingID\<close> on a new instance.\<close>

definition key :: "model_class \<Rightarrow> inst \<Rightarrow> py_error + string" where
  "key C i =
     (case inst_id i of
        None \<Rightarrow> Inl MissingID
      | Some x \<Rightarrow> Inr (Key_getitem (key_prefix C) x))"

definition key_att :: "model_class \<Rightarrow> inst \<Rightarrow> string \<Rightarrow> py_error + string" where
  "key_att C i att =
     (case inst_id i of
        None \<Rightarrow> Inl MissingID
      | Some x \<Rightarrow> Inr (Key_getitem (Key_getitem (key_prefix C) x) att))"

subsection \<open>Attribute access\<close>

text \<open>
  \<^verbatim>\<open>getattr(instance, n)\<close>.  The lookup first finds what the class binds to \<open>n\<close>.  A field
  descriptor defines \<^verbatim>\<open>__get__\<close> and \<^verbatim>\<open>__set__\<close>, so it comes before the instance's dict and
  the lookup calls \<^verbatim>\<open>__get__(instance, owner)\<close> on it.  \<^verbatim>\<open>Attribute\<close>, \<^verbatim>\<open>ReferenceField\<close> and
  \<^verbatim>\<open>Counter\<close> all declare \<^verbatim>\<open>def __get__(self, instance)\<close>: the call passes one argument more
  than the method takes and raises \<^verbatim>\<open>TypeError\<close> before the body runs.  A plain value of
  the class yields to an entry of the instance's dict, and a name found in neither raises
  \<^verbatim>\<open>AttributeError\<close>.
\<close>

definition getattr :: "model_class \<Rightarrow> string \<Rightarrow> inst \<Rightarrow> py_error + pyval" where
  "getattr C n i =
     (case map_of (namespace C) n of
        Some (DAttribute a) \<Rightarrow> Inl TypeError
      | Some (DReference r) \<Rightarrow> Inl TypeError
      | Some (DValue v) \<Rightarrow> (case inst_dict i n of Some x \<Rightarrow> Inr x | None \<Rightarrow> Inr v)
      | None \<Rightarrow> (case inst_dict i n of Some x \<Rightarrow> Inr x | None \<Rightarrow> Inl AttributeError))"

text \<open>
  \<^verbatim>\<open>Attribute.__set__\<close> and \<^verbatim>\<open>Counter.__set__\<close>, which take the arguments an assignment
  passes.  \<open>setattr_now\<close> is \<^verbatim>\<open>setattr(self, k, datetime.now())\<close>, the one assignment the
  write loop makes: through \<^verbatim>\<open>__set__\<close> when the class binds \<open>k\<close> to a descriptor
  (\<^verbatim>\<open>ReferenceField.__set__\<close> raises \<^verbatim>\<open>TypeError\<close> on a datetime), into the instance's dict
  otherwise.
\<close>

definition Attribute_set :: "attribute \<Rightarrow> inst \<Rightarrow> pyval \<Rightarrow> inst" where
  "Attribute_set a i v = i\<lparr>inst_dict := (inst_dict i)(''_'' @ att_name a \<mapsto> v)\<rparr>"

definition descriptor_set :: "attribute \<Rightarrow> inst \<Rightarrow> pyval \<Rightarrow> py_error + inst" where
  "descriptor_set a i v =
     (if att_kind a = Counter then Inl AttributeError else Inr (Attribute_set a i v))"

definition setattr_now :: "env \<Rightarrow> model_class \<Rightarrow> string \<Rightarrow> inst \<Rightarrow> py_error + inst" where
  "setattr_now E C k i =
     (case map_of (namespace C) k of
        Some (DAttribute a) \<Rightarrow> descriptor_set a i (now E)
      | Some (DReference r) \<Rightarrow> Inl TypeError
      | Some (DValue v) \<Rightarrow> Inr (i\<lparr>inst_dict := (inst_dict i)(k \<mapsto> now E)\<rparr>)
      | None \<Rightarrow> Inr (i\<lparr>inst_dict := (inst_dict i)(k \<mapsto> now E)\<rparr>))"

text \<open>
  The bodies of \<^verbatim>\<open>Attribute.__get__\<close> and \<^verbatim>\<open>Counter.__get__\<close>, as they run when the method is
  called with the instance alone, \<^verbatim>\<open>d.__get__(instance)\<close>; no attribute access reaches
  them.  \<open>Attribute_get\<close>: the value kept under \<^verbatim>\<open>_<name>\<close> if there is one; else the default
  for a new instance or in asynchronous mode, else the value fetched with \<^verbatim>\<open>hget\<close> and
  read-cast; the result is kept with \<^verbatim>\<open>self.__set__\<close>.  \<open>Counter_get\<close> keeps nothing.
\<close>

definition Attribute_get ::
  "env \<Rightarrow> model_class \<Rightarrow> attribute \<Rightarrow> inst \<Rightarrow> world \<Rightarrow> py_error + (pyval \<times> inst \<times> world)" where
  "Attribute_get E C a i w =
     (case getattr C (''_'' @ att_name a) i of
        Inr v \<Rightarrow> Inr (v, i, w)
      | Inl e \<Rightarrow>
          if e \<noteq> AttributeError then Inl e
          else
            (case (if is_new i \<or> is_async E then Inr (att_default a, w)
                   else
                     (case key C i of
                        Inl e \<Rightarrow> Inl e
                      | Inr k \<Rightarrow>
                          (case hget k (att_name a) w of
                             Inl e \<Rightarrow> Inl e
                           | Inr (None, w') \<Rightarrow> Inr (PNone, w')
                           | Inr (Some t, w') \<Rightarrow>
                               (case typecast_for_read (att_kind a) (PStr t) of
                                  Inl e \<Rightarrow> Inl e
                                | Inr v \<Rightarrow> Inr (v, w'))))) of
               Inl e \<Rightarrow> Inl e
             | Inr (v, w') \<Rightarrow>
                 (case descriptor_set a i v of
                    Inl e \<Rightarrow> Inl e
                  | Inr i' \<Rightarrow> Inr (v, i', w'))))"

definition Counter_get ::
  "env \<Rightarrow> model_class \<Rightarrow> attribute \<Rightarrow> inst \<Rightarrow> world \<Rightarrow> py_error + (pyval \<times> inst \<times> world)" where
  "Counter_get E C a i w =
     (if \<not> (is_new i \<or> is_async E) then
        (case key C i of
           Inl e \<Rightarrow> Inl e
         | Inr k \<Rightarrow>
             (case hget k (att_name a) w of
                Inl e \<Rightarrow> Inl e
              | Inr (None, w') \<Rightarrow> Inr (PInt 0, i, w')
              | Inr (Some t, w') \<Rightarrow>
                  (case int_of_string t of
                     Inl e \<Rightarrow> Inl e
                   | Inr n \<Rightarrow> Inr (PInt n, i, w'))))
      else Inr (PInt 0, i, w))"

subsection \<open>Validation\<close>

text \<open>
  \<^verbatim>\<open>validate\<close> raises \<^verbatim>\<open>FieldValidationError(errors)\<close> when its list is not empty and
  \<^verbatim>\<open>is_valid\<close> catches it and extends \<^verbatim>\<open>_errors\<close>: here \<open>validate\<close> returns the list.  Any
  other exception propagates, the \<^verbatim>\<open>TypeError\<close> of \<^verbatim>\<open>getattr(instance, self.name)\<close> among
  them; \<^verbatim>\<open>getattr(instance, self.attname, None)\<close> turns \<^verbatim>\<open>AttributeError\<close> alone into
  \<^verbatim>\<open>None\<close>.
\<close>

fun acceptable :: "field_kind \<Rightarrow> pyval \<Rightarrow> bool" where
  "acceptable Attribute (PStr s) = True"
| "acceptable (CharField m) (PStr s) = True"
| "acceptable BooleanField (PBool b) = True"
| "acceptable IntegerField (PInt n) = True"
| "acceptable IntegerField (PBool b) = True"
| "acceptable Counter (PInt n) = True"
| "acceptable Counter (PBool b) = True"
| "acceptable FloatField (PFloat f) = True"
| "acceptable (DateTimeField a b) (PDateTime s us) = True"
| "acceptable (DateField a b) (PDateTime s us) = True"
| "acceptable (DateField a b) (PDate d) = True"
| "acceptable k v = False"

fun py_len :: "pyval \<Rightarrow> py_error + nat" where
  "py_len (PStr s) = Inr (length s)"
| "py_len (PSeq xs) = Inr (length xs)"
| "py_len v = Inl TypeError"

definition field_errors :: "env \<Rightarrow> attribute \<Rightarrow> pyval \<Rightarrow> (string \<times> string) list" where
  "field_errors E a v =
     (if truthy v \<and> \<not> acceptable (att_kind a) v then [(att_name a, ''bad type'')] else []) @
     (if att_required a \<and> (v = PNone \<or> strip (py_unicode E v) = [])
      then [(att_name a, ''required'')] else []) @
     (case att_validator a of None \<Rightarrow> [] | Some f \<Rightarrow> f (att_name a) v)"

definition Attribute_validate ::
  "env \<Rightarrow> model_class \<Rightarrow> attribute \<Rightarrow> inst \<Rightarrow> py_error + (string \<times> string) list" where
  "Attribute_validate E C a i =
     (case getattr C (att_name a) i of
        Inl e \<Rightarrow> Inl e
      | Inr v \<Rightarrow> Inr (field_errors E a v))"

definition CharField_validate ::
  "env \<Rightarrow> model_class \<Rightarrow> nat \<Rightarrow> attribute \<Rightarrow> inst \<Rightarrow> py_error + (string \<times> string) list" where
  "CharField_validate E C m a i =
     (case Attribute_validate E C a i of
        Inl e \<Rightarrow> Inl e
      | Inr es \<Rightarrow>
          (case getattr C (att_name a) i of
             Inl e \<Rightarrow> Inl e
           | Inr v \<Rightarrow>
               if truthy v then
                 (case py_len v of
                    Inl e \<Rightarrow> Inl e
                  | Inr n \<Rightarrow> Inr (es @ (if m < n then [(att_name a, ''exceeds max length'')] else [])))
               else Inr es))"

definition validate_attribute ::
  "env \<Rightarrow> model_class \<Rightarrow> attribute \<Rightarrow> inst \<Rightarrow> py_error + (string \<times> string) list" where
  "validate_attribute E C a i =
     (case att_kind a of
        CharField m \<Rightarrow> CharField_validate E C m a i
      | _ \<Rightarrow> Attribute_validate E C a i)"

definition ReferenceField_validate ::
  "env \<Rightarrow> model_class \<Rightarrow> reference \<Rightarrow> inst \<Rightarrow> py_error + (string \<times> string) list" where
  "ReferenceField_validate E C r i =
     (case (case getattr C (ref_attname r) i of
              Inl e \<Rightarrow> if e = AttributeError then Inr PNone else Inl e
            | Inr x \<Rightarrow> Inr x) of
        Inl e \<Rightarrow> Inl e
      | Inr v \<Rightarrow>
          Inr ((if truthy v \<and> \<not> all_digits (py_unicode E v)
                then [(ref_name r, ''bad type for reference'')] else []) @
               (if ref_required r \<and> \<not> truthy v then [(ref_name r, ''required'')] else []) @
               (case ref_validator r of None \<Rightarrow> [] | Some f \<Rightarrow> f (ref_name r) v)))"

fun validate_attributes ::
  "env \<Rightarrow> model_class \<Rightarrow> attribute list \<Rightarrow> (string \<times> string) list \<Rightarrow> inst \<Rightarrow>
   py_error + (string \<times> string) list" where
  "validate_attributes E C [] es i = Inr es"
| "validate_attributes E C (a # as) es i =
     (case validate_attribute E C a i of
        Inl e \<Rightarrow> Inl e
      | Inr es' \<Rightarrow> validate_attributes E C as (es @ es') i)"

fun validate_references ::
  "env \<Rightarrow> model_class \<Rightarrow> reference list \<Rightarrow> (string \<times> string) list \<Rightarrow> inst \<Rightarrow>
   py_error + (string \<times> string) list" where
  "validate_references E C [] es i = Inr es"
| "validate_references E C (r # rs) es i =
     (case ReferenceField_validate E C r i of
        Inl e \<Rightarrow> Inl e
      | Inr es' \<Rightarrow> validate_references E C rs (es @ es') i)"

definition is_valid :: "env \<Rightarrow> model_class \<Rightarrow> inst \<Rightarrow> py_error + (bool \<times> inst)" where
  "is_valid E C i =
     (case validate_attributes E C (map snd (attributes C)) [] (i\<lparr>errors := []\<rparr>) of
        Inl e \<Rightarrow> Inl e
      | Inr es \<Rightarrow>
          (case validate_references E C (map snd (references C)) es (i\<lparr>errors := []\<rparr>) of
             Inl e \<Rightarrow> Inl e
           | Inr es' \<Rightarrow>
               Inr (es' @ validate_hook C (i\<lparr>errors := es'\<rparr>) = [],
                    i\<lparr>errors := es' @ validate_hook C (i\<lparr>errors := es'\<rparr>)\<rparr>)))"

subsection \<open>Building and writing the hash\<close>

text \<open>
  \<open>store_field\<close> is one turn of the loop over \<^verbatim>\<open>self.attributes.iteritems()\<close> that
  \<^verbatim>\<open>_write\<close> and \<^verbatim>\<open>_get_data_for_storage\<close> both run (the branch of the latter on
  \<^verbatim>\<open>ReferenceField\<close> is dead: \<^verbatim>\<open>_attributes\<close> holds \<^verbatim>\<open>Attribute\<close> instances only).  An
  operation on the store returns its outcome with the world it leaves, also when the
  outcome is an exception (\<open>run\<close>).  \<open>Model_write\<close> is \<^verbatim>\<open>_write\<close>: the loop, then the pipeline
  \<^verbatim>\<open>delete\<close>, \<^verbatim>\<open>hmset\<close> if the hash is not empty.
\<close>

type_synonym 'a run = "(py_error + 'a) \<times> world"

definition set_now :: "env \<Rightarrow> model_class \<Rightarrow> string \<Rightarrow> bool \<Rightarrow> bool \<Rightarrow> bool \<Rightarrow> inst \<Rightarrow> py_error + inst" where
  "set_now E C k auto_now auto_now_add new i =
     (case (if auto_now then setattr_now E C k i else Inr i) of
        Inl e \<Rightarrow> Inl e
      | Inr i1 \<Rightarrow> if auto_now_add \<and> new then setattr_now E C k i1 else Inr i1)"

definition auto_timestamps ::
  "env \<Rightarrow> model_class \<Rightarrow> string \<times> attribute \<Rightarrow> bool \<Rightarrow> inst \<Rightarrow> py_error + inst" where
  "auto_timestamps E C ka new i =
     (case att_kind (snd ka) of
        DateTimeField auto_now auto_now_add \<Rightarrow> set_now E C (fst ka) auto_now auto_now_add new i
      | DateField auto_now auto_now_add \<Rightarrow> set_now E C (fst ka) auto_now auto_now_add new i
      | _ \<Rightarrow> Inr i)"

definition store_field ::
  "env \<Rightarrow> model_class \<Rightarrow> bool \<Rightarrow> string \<times> attribute \<Rightarrow>
   (string \<times> pyval) list \<times> inst \<Rightarrow> py_error + ((string \<times> pyval) list \<times> inst)" where
  "store_field E C new ka s =
     (case s of (h, i) \<Rightarrow>
        (case auto_timestamps E C ka new i of
           Inl e \<Rightarrow> Inl e
         | Inr i1 \<Rightarrow>
             (case getattr C (fst ka) i1 of
                Inl e \<Rightarrow> Inl e
              | Inr v \<Rightarrow>
                  if v \<noteq> PNone then
                    (case typecast_for_storage E (att_kind (snd ka)) v of
                       Inl e \<Rightarrow> Inl e
                     | Inr t \<Rightarrow> Inr (AList.update (fst ka) t h, i1))
                  else Inr (h, i1))))"

fun store_fields ::
  "env \<Rightarrow> model_class \<Rightarrow> bool \<Rightarrow> (string \<times> attribute) list \<Rightarrow>
   (string \<times> pyval) list \<times> inst \<Rightarrow> py_error + ((string \<times> pyval) list \<times> inst)" where
  "store_fields E C new [] s = Inr s"
| "store_fields E C new (ka # kas) s =
     (case store_field E C new ka s of
        Inl e \<Rightarrow> Inl e
      | Inr s' \<Rightarrow> store_fields E C new kas s')"

definition get_data_for_storage ::
  "env \<Rightarrow> model_class \<Rightarrow> bool \<Rightarrow> inst \<Rightarrow> py_error + ((string \<times> pyval) list \<times> inst)" where
  "get_data_for_storage E C new i = store_fields E C new (attributes C) ([], i)"

definition hash_text :: "env \<Rightarrow> (string \<times> pyval) list \<Rightarrow> string \<Rightarrow> string option" where
  "hash_text E h = map_of (map (\<lambda>(k, v). (k, py_unicode E v)) h)"

definition Model_write :: "env \<Rightarrow> model_class \<Rightarrow> bool \<Rightarrow> inst \<Rightarrow> world \<Rightarrow> inst run" where
  "Model_write E C new i w =
     (case store_fields E C new (attributes C) ([], i) of
        Inl e \<Rightarrow> (Inl e, w)
      | Inr (h, i') \<Rightarrow>
          (case key C i' of
             Inl e \<Rightarrow> (Inl e, w)
           | Inr k \<Rightarrow>
               if h \<noteq> [] then
                 (case hmset k (hash_text E h) (delete k w) of
                    Inl e \<Rightarrow> (Inl e, delete k w)
                  | Inr w' \<Rightarrow> (Inr i', w'))
               else (Inr i', delete k w)))"



definition initialize_id :: "model_class \<Rightarrow> inst \<Rightarrow> world \<Rightarrow> inst run" where
  "initialize_id C i w =
     (case incr (Key_getitem (key_prefix C) ''id'') w of
        Inl e \<Rightarrow> (Inl e, w)
      | Inr (n, w') \<Rightarrow> (Inr (i\<lparr>inst_id := Some (str_int n)\<rparr>), w'))"

section \<open>The lock (\<^verbatim>\<open>Mutex\<close>)\<close>

text \<open>
  \<^verbatim>\<open>Mutex.lock\<close> is a loop around store commands.  \<open>lock_step\<close> is one step of it, from
  one store command (or the sleep) to the next; \<open>Mutex_lock\<close> runs the steps until the
  lock is acquired or an exception is raised, and is \<open>None\<close> when the loop never ends.
\<close>

fun float_less :: "pyfloat \<Rightarrow> pyfloat \<Rightarrow> bool" where
  "float_less NaN y = False"
| "float_less x NaN = False"
| "float_less (Finite a) (Finite b) = (a < b)"
| "float_less (Finite a) PosInf = True"
| "float_less (Finite a) NegInf = False"
| "float_less PosInf y = False"
| "float_less NegInf NegInf = False"
| "float_less NegInf y = True"

definition lock_timeout :: "world \<Rightarrow> string" where
  "lock_timeout w = format_f (Finite (clock w + 1))"

definition lock_has_expired :: "string \<Rightarrow> world \<Rightarrow> py_error + bool" where
  "lock_has_expired lock w =
     (case float_of_string lock of
        Inl e \<Rightarrow> Inl e
      | Inr f \<Rightarrow> Inr (float_less f (Finite (clock w))))"

definition setnx :: "string \<Rightarrow> string \<Rightarrow> world \<Rightarrow> bool \<times> world" where
  "setnx k v w =
     (case store w k of
        None \<Rightarrow> (True, (issue (SETNX k v) w)\<lparr>store := (store w)(k \<mapsto> RString v)\<rparr>)
      | Some x \<Rightarrow> (False, issue (SETNX k v) w))"

definition get :: "string \<Rightarrow> world \<Rightarrow> py_error + (string option \<times> world)" where
  "get k w =
     (case store w k of
        None \<Rightarrow> Inr (None, issue (GET k) w)
      | Some (RString s) \<Rightarrow> Inr (Some s, issue (GET k) w)
      | Some (RHash h) \<Rightarrow> Inl ResponseError)"

definition getset :: "string \<Rightarrow> string \<Rightarrow> world \<Rightarrow> py_error + (string option \<times> world)" where
  "getset k v w =
     (case store w k of
        None \<Rightarrow> Inr (None, (issue (GETSET k v) w)\<lparr>store := (store w)(k \<mapsto> RString v)\<rparr>)
      | Some (RString s) \<Rightarrow>
          Inr (Some s, (issue (GETSET k v) w)\<lparr>store := (store w)(k \<mapsto> RString v)\<rparr>)
      | Some (RHash h) \<Rightarrow> Inl ResponseError)"

definition sleep :: "rat \<Rightarrow> world \<Rightarrow> world" where
  "sleep d w = w\<lparr>clock := clock w + d\<rparr>"

datatype lock_pc = AtSetnx | AtGet | AtGetset | Sleeping | Acquired | Raised py_error

definition absent_or_empty :: "string option \<Rightarrow> bool" where
  "absent_or_empty lock = (lock = None \<or> lock = Some [])"

definition lock_step :: "string \<Rightarrow> lock_pc \<times> world \<Rightarrow> lock_pc \<times> world" where
  "lock_step k s =
     (case s of (pc, w) \<Rightarrow>
        (case pc of
           AtSetnx \<Rightarrow>
             (case setnx k (lock_timeout w) w of (ok, w') \<Rightarrow> (if ok then Acquired else AtGet, w'))
         | AtGet \<Rightarrow>
             (case get k w of
                Inl e \<Rightarrow> (Raised e, w)
              | Inr (lock, w') \<Rightarrow>
                  if absent_or_empty lock then (AtSetnx, w')
                  else
                    (case lock_has_expired (the lock) w' of
                       Inl e \<Rightarrow> (Raised e, w')
                     | Inr expired \<Rightarrow> (if expired then AtGetset else Sleeping, w')))
         | Sleeping \<Rightarrow> (AtSetnx, sleep (1 / 2) w)
         | AtGetset \<Rightarrow>
             (case getset k (lock_timeout w) w of
                Inl e \<Rightarrow> (Raised e, w)
              | Inr (lock, w') \<Rightarrow>
                  if absent_or_empty lock then (Acquired, w')
                  else
                    (case lock_has_expired (the lock) w' of
                       Inl e \<Rightarrow> (Raised e, w')
                     | Inr expired \<Rightarrow> (if expired then Acquired else AtSetnx, w')))
         | Acquired \<Rightarrow> (Acquired, w)
         | Raised e \<Rightarrow> (Raised e, w)))"

definition lock_running :: "lock_pc \<times> world \<Rightarrow> bool" where
  "lock_running s = (case fst s of Acquired \<Rightarrow> False | Raised e \<Rightarrow> False | _ \<Rightarrow> True)"

definition Mutex_lock :: "model_class \<Rightarrow> inst \<Rightarrow> world \<Rightarrow> unit run option" where
  "Mutex_lock C i w =
     (case key_att C i ''_lock'' of
        Inl e \<Rightarrow> Some (Inl e, w)
      | Inr k \<Rightarrow>
          (case while_option lock_running (lock_step k) (AtSetnx, w) of
             None \<Rightarrow> None
           | Some (pc, w') \<Rightarrow> (case pc of Raised e \<Rightarrow> Some (Inl e, w') | _ \<Rightarrow> Some (Inr (), w'))))"

definition Mutex_unlock :: "model_class \<Rightarrow> inst \<Rightarrow> world \<Rightarrow> unit run" where
  "Mutex_unlock C i w =
     (case key_att C i ''_lock'' of
        Inl e \<Rightarrow> (Inl e, w)
      | Inr k \<Rightarrow> (Inr (), delete k w))"

section \<open>Saving\<close>

text \<open>
  \<^verbatim>\<open>Model.save\<close>: validate; a new instance takes its identity from \<^verbatim>\<open>incr\<close> on the
  identity counter; then \<^verbatim>\<open>with Mutex(self): self._write(_new)\<close>.  The \<^verbatim>\<open>with\<close> statement runs
  \<^verbatim>\<open>__exit__\<close>, the unlock, also when \<^verbatim>\<open>_write\<close> raises, and the exception of \<^verbatim>\<open>_write\<close> then
  goes on.
\<close>

datatype save_result = Saved | Errors "(string \<times> string) list"

definition locked_write ::
  "env \<Rightarrow> model_class \<Rightarrow> bool \<Rightarrow> inst \<Rightarrow> world \<Rightarrow> inst run option" where
  "locked_write E C new i w =
     (case Mutex_lock C i w of
        None \<Rightarrow> None
      | Some (Inl e, w1) \<Rightarrow> Some (Inl e, w1)
      | Some (Inr u, w1) \<Rightarrow>
          (case Model_write E C new i w1 of
             (r, w2) \<Rightarrow>
               (case Mutex_unlock C i w2 of
                  (Inl e, w3) \<Rightarrow> Some (Inl e, w3)
                | (Inr u', w3) \<Rightarrow> Some (r, w3))))"

definition save ::
  "env \<Rightarrow> model_class \<Rightarrow> inst \<Rightarrow> world \<Rightarrow> (save_result \<times> inst) run option" where
  "save E C i w =
     (case is_valid E C i of
        Inl e \<Rightarrow> Some (Inl e, w)
      | Inr (ok, i1) \<Rightarrow>
          if \<not> ok then Some (Inr (Errors (errors i1), i1), w)
          else
            (case (if is_new i1 then initialize_id C i1 w else (Inr i1, w)) of
               (Inl e, w2) \<Rightarrow> Some (Inl e, w2)
             | (Inr i2, w2) \<Rightarrow>
                 (case locked_write E C (is_new i1) i2 w2 of
                    None \<Rightarrow> None
                  | Some (Inl e, w3) \<Rightarrow> Some (Inl e, w3)
                  | Some (Inr i3, w3) \<Rightarrow> Some (Inr (Saved, i3), w3))))"

section \<open>Schema composition (\<^verbatim>\<open>ModelBase\<close>)\<close>

text \<open>
  What the metaclass computes from the parents and the class body: \<^verbatim>\<open>_references\<close> (and
  the backing \<^verbatim>\<open><name>_id\<close> attribute added to the body and bound on the class),
  \<^verbatim>\<open>_attributes\<close> (every \<^verbatim>\<open>Attribute\<close> instance, a \<^verbatim>\<open>Counter\<close> among them), \<^verbatim>\<open>_counters\<close> and the
  key.  A descriptor without a name takes the name it is bound to.  The class keeps the
  bindings of its body, which come before those of its parents in a lookup (the parents
  from left to right).  The reverse accessors installed on the target of a reference are
  not modelled.
\<close>

definition named :: "string \<Rightarrow> attribute \<Rightarrow> attribute" where
  "named k a = a\<lparr>att_name := (if att_name a = [] then k else att_name a)\<rparr>"

definition inherit :: "(string \<times> 'a) list list \<Rightarrow> (string \<times> 'a) list" where
  "inherit ps = fold (\<lambda>p d. fold (\<lambda>kv. AList.update (fst kv) (snd kv)) p d) ps []"

definition own_attribute :: "string \<times> declared \<Rightarrow> (string \<times> attribute) list \<Rightarrow> (string \<times> attribute) list" where
  "own_attribute kv d =
     (case snd kv of DAttribute a \<Rightarrow> AList.update (fst kv) (named (fst kv) a) d | _ \<Rightarrow> d)"

definition initialize_attributes ::
  "model_class list \<Rightarrow> (string \<times> declared) list \<Rightarrow> (string \<times> attribute) list" where
  "initialize_attributes parents attrs = fold own_attribute attrs (inherit (map attributes parents))"

definition ref_named :: "string \<Rightarrow> reference \<Rightarrow> reference" where
  "ref_named k r =
     (let n = (if ref_name r = [] then k else ref_name r) in
      r\<lparr>ref_name := n, ref_attname := (if ref_attname r = [] then n @ ''_id'' else ref_attname r)\<rparr>)"

definition own_reference :: "string \<times> declared \<Rightarrow> (string \<times> reference) list \<Rightarrow> (string \<times> reference) list" where
  "own_reference kv d =
     (case snd kv of DReference r \<Rightarrow> AList.update (fst kv) (ref_named (fst kv) r) d | _ \<Rightarrow> d)"

definition backing_attribute :: "string \<times> declared \<Rightarrow> (string \<times> declared) list \<Rightarrow> (string \<times> declared) list" where
  "backing_attribute kv h =
     (case snd kv of
        DReference r \<Rightarrow>
          AList.update (ref_attname (ref_named (fst kv) r))
            (DAttribute \<lparr>att_name = ref_attname (ref_named (fst kv) r), att_required = False,
                         att_default = PNone, att_validator = None, att_kind = Attribute\<rparr>) h
      | _ \<Rightarrow> h)"

definition initialize_references ::
  "model_class list \<Rightarrow> (string \<times> declared) list \<Rightarrow>
   (string \<times> reference) list \<times> (string \<times> declared) list" where
  "initialize_references parents attrs =
     (fold own_reference attrs (inherit (map references parents)),
      fold (\<lambda>kv. AList.update (fst kv) (snd kv)) (fold backing_attribute attrs []) attrs)"

definition own_counter :: "string \<times> declared \<Rightarrow> string list \<Rightarrow> string list" where
  "own_counter kv cs =
     (case snd kv of
        DAttribute a \<Rightarrow> if att_kind a = Counter then remove1 (fst kv) cs @ [fst kv] else cs
      | _ \<Rightarrow> cs)"

definition initialize_counters :: "model_class list \<Rightarrow> (string \<times> declared) list \<Rightarrow> string list" where
  "initialize_counters parents attrs = fold own_counter attrs (concat (map counters parents))"

definition bound :: "string \<times> declared \<Rightarrow> string \<times> declared" where
  "bound kv =
     (case snd kv of
        DAttribute a \<Rightarrow> (fst kv, DAttribute (named (fst kv) a))
      | DReference r \<Rightarrow> (fst kv, DReference (ref_named (fst kv) r))
      | DValue v \<Rightarrow> kv)"

definition ModelBase_init ::
  "string \<Rightarrow> model_class list \<Rightarrow> (string \<times> declared) list \<Rightarrow> string \<Rightarrow>
   (inst \<Rightarrow> (string \<times> string) list) \<Rightarrow> model_class" where
  "ModelBase_init name parents attrs meta_key hook =
     (case initialize_references parents attrs of (refs, attrs') \<Rightarrow>
        \<lparr>cls_name = name,
         cls_mro = name # concat (map cls_mro parents),
         namespace = map bound attrs' @ concat (map namespace parents),
         attributes = initialize_attributes parents attrs',
         references = refs,
         counters = initialize_counters parents attrs',
         key_prefix = (if meta_key = [] then name else meta_key),
         validate_hook = hook\<rparr>)"

definition Counter_init :: "bool \<Rightarrow> pyval option \<Rightarrow> attribute" where
  "Counter_init required dflt =
     \<lparr>att_name = [], att_required = required,
      att_default = (case dflt of None \<Rightarrow> PInt 0 | Some v \<Rightarrow> if v = PNone then PInt 0 else v),
      att_validator = None, att_kind = Counter\<rparr>"

definition Model_init :: "model_class \<Rightarrow> inst" where
  "Model_init C = \<lparr>inst_class = cls_name C, inst_id = None, inst_dict = Map.empty, errors = []\<rparr>"

section \<open>Equality and hash of instances\<close>






section \<open>The batch manager (\<^verbatim>\<open>orm/managers.py\<close>)\<close>

text \<open>
  The methods of \<^verbatim>\<open>Manager\<close>, for a manager built on the record type \<open>C\<close>.  What the client
  library hands to the callback of a command is an exception, the value the command
  answers with, or \<^verbatim>\<open>None\<close> (\<open>answer\<close>): the dict of an \<^verbatim>\<open>hmget\<close> maps each field name to text
  or to \<^verbatim>\<open>None\<close>, a pipeline of \<^verbatim>\<open>hmget\<close> answers with a list of such dicts (or \<^verbatim>\<open>None\<close>), a
  range or set read with a list of members, a pipeline of set reads with a list of such
  lists.  A \<open>request\<close> is the command an operation sends, and a \<open>payload\<close> the argument an
  operation passes to the application's callback.
\<close>

datatype 'a answer = Failure string | Answer 'a | Nothing

type_synonym fields = "(string \<times> string option) list"

datatype request =
    Hmget string "string list"
  | Smembers string
  | Zrangebyscore string string string "int option" "int option"
  | Zrevrangebyscore string string string "int option" "int option"

datatype payload =
    PayNone
  | PayInstance inst
  | PayObjects "(string \<times> pyval) list list"
  | PayValues "string list"
  | PayGroups "string list list"

text \<open>
  \<^verbatim>\<open>callback(p)\<close>, after the lines \<open>logged\<close> were written with \<^verbatim>\<open>logging.error\<close>.  Every operation
  declares \<^verbatim>\<open>callback=None\<close>, and calling \<^verbatim>\<open>None\<close> raises \<^verbatim>\<open>TypeError\<close>.
\<close>

definition call :: "(payload \<Rightarrow> 'r) option \<Rightarrow> string list \<Rightarrow> payload \<Rightarrow> py_error + (string list \<times> 'r)" where
  "call callback logged p =
     (case callback of None \<Rightarrow> Inl TypeError | Some f \<Rightarrow> Inr (logged, f p))"

text \<open>The setter of \<^verbatim>\<open>id\<close>: \<^verbatim>\<open>self._id = str(val)\<close>.\<close>

definition set_id :: "env \<Rightarrow> pyval \<Rightarrow> inst \<Rightarrow> inst" where
  "set_id E val i = i\<lparr>inst_id := Some (py_unicode E val)\<rparr>"

text \<open>
  \<^verbatim>\<open>Model.typecast_for_read(d)\<close>.  On \<^verbatim>\<open>None\<close> it returns \<^verbatim>\<open>None\<close>.  On a dict, every attribute
  named in it is assigned by a direct call of \<^verbatim>\<open>__set__\<close>, \<^verbatim>\<open>None\<close> as it is and text after the
  attribute's read cast, and then the identity if the dict has one.
\<close>

definition hydrate_field :: "fields \<Rightarrow> attribute \<Rightarrow> inst \<Rightarrow> py_error + inst" where
  "hydrate_field d a i =
     (case map_of d (att_name a) of
        None \<Rightarrow> Inr i
      | Some None \<Rightarrow> descriptor_set a i PNone
      | Some (Some t) \<Rightarrow>
          (case typecast_for_read (att_kind a) (PStr t) of
             Inl e \<Rightarrow> Inl e
           | Inr v \<Rightarrow> descriptor_set a i v))"

fun hydrate_fields :: "fields \<Rightarrow> attribute list \<Rightarrow> inst \<Rightarrow> py_error + inst" where
  "hydrate_fields d [] i = Inr i"
| "hydrate_fields d (a # as) i =
     (case hydrate_field d a i of Inl e \<Rightarrow> Inl e | Inr i' \<Rightarrow> hydrate_fields d as i')"

definition Model_typecast_for_read ::
  "env \<Rightarrow> model_class \<Rightarrow> inst \<Rightarrow> fields option \<Rightarrow> py_error + inst option" where
  "Model_typecast_for_read E C i res =
     (case res of
        None \<Rightarrow> Inr None
      | Some d \<Rightarrow>
          (case hydrate_fields d (map snd (attributes C)) i of
             Inl e \<Rightarrow> Inl e
           | Inr i' \<Rightarrow>
               (case map_of d ''id'' of
                  None \<Rightarrow> Inr (Some i')
                | Some x \<Rightarrow>
                    Inr (Some (set_id E (case x of None \<Rightarrow> PNone | Some t \<Rightarrow> PStr t) i')))))"

text \<open>
  The property \<^verbatim>\<open>object_dict\<close>: every attribute read with \<^verbatim>\<open>getattr(self, att.name)\<close>, text
  passed through \<^verbatim>\<open>deserialize\<close>, and then the entry \<^verbatim>\<open>id\<close>.
\<close>

definition object_field ::
  "env \<Rightarrow> model_class \<Rightarrow> inst \<Rightarrow> attribute \<Rightarrow> (string \<times> pyval) list \<Rightarrow>
   py_error + (string \<times> pyval) list" where
  "object_field E C i a d =
     (case getattr C (att_name a) i of
        Inl e \<Rightarrow> Inl e
      | Inr v \<Rightarrow> Inr (AList.update (att_name a) (case v of PStr t \<Rightarrow> deserialize E t | _ \<Rightarrow> v) d))"

fun object_fields ::
  "env \<Rightarrow> model_class \<Rightarrow> inst \<Rightarrow> attribute list \<Rightarrow> (string \<times> pyval) list \<Rightarrow>
   py_error + (string \<times> pyval) list" where
  "object_fields E C i [] d = Inr d"
| "object_fields E C i (a # as) d =
     (case object_field E C i a d of Inl e \<Rightarrow> Inl e | Inr d' \<Rightarrow> object_fields E C i as d')"

definition object_dict :: "env \<Rightarrow> model_class \<Rightarrow> inst \<Rightarrow> py_error + (string \<times> pyval) list" where
  "object_dict E C i =
     (case object_fields E C i (map snd (attributes C)) [] of
        Inl e \<Rightarrow> Inl e
      | Inr d \<Rightarrow>
          (case inst_id i of
             None \<Rightarrow> Inl MissingID
           | Some x \<Rightarrow> Inr (AList.update ''id'' (PStr x) d)))"

text \<open>\<^verbatim>\<open>any(od.values())\<close>.\<close>

definition any_value :: "(string \<times> pyval) list \<Rightarrow> bool" where
  "any_value d = list_ex truthy (map snd d)"

subsection \<open>\<^verbatim>\<open>get_by_id_async\<close>\<close>

text \<open>
  The command \<^verbatim>\<open>get_by_id_async\<close> sends and its callback \<^verbatim>\<open>on_response\<close>, which returns the
  lines logged and what the application's callback returned.  \<^verbatim>\<open>res.values()\<close> raises
  \<^verbatim>\<open>AttributeError\<close> on \<^verbatim>\<open>None\<close>.
\<close>

definition get_by_id_async_request :: "env \<Rightarrow> model_class \<Rightarrow> pyval \<Rightarrow> py_error + request" where
  "get_by_id_async_request E C ident =
     (case key C (set_id E ident (Model_init C)) of
        Inl e \<Rightarrow> Inl e
      | Inr k \<Rightarrow> Inr (Hmget k (map fst (attributes C))))"

definition get_by_id_async_on_response ::
  "env \<Rightarrow> model_class \<Rightarrow> pyval \<Rightarrow> (payload \<Rightarrow> 'r) option \<Rightarrow> fields answer \<Rightarrow>
   py_error + (string list \<times> 'r)" where
  "get_by_id_async_on_response E C ident callback res =
     (case res of
        Failure e \<Rightarrow> call callback [e] PayNone
      | Answer d \<Rightarrow>
          if list_ex (\<lambda>x. x \<noteq> None \<and> x \<noteq> Some []) (map snd d) then
            (case Model_typecast_for_read E C (set_id E ident (Model_init C)) (Some d) of
               Inl e \<Rightarrow> Inl e
             | Inr None \<Rightarrow> call callback [] PayNone
             | Inr (Some i) \<Rightarrow> call callback [] (PayInstance i))
          else call callback [] PayNone
      | Nothing \<Rightarrow> Inl AttributeError)"

subsection \<open>\<^verbatim>\<open>get_by_ids_async\<close>\<close>

text \<open>
  The commands \<^verbatim>\<open>get_by_ids_async\<close> puts in the pipeline, and its \<^verbatim>\<open>on_response\<close>: \<open>collect\<close> is
  the loop over \<^verbatim>\<open>zip(ids, res)\<close>, \<open>hydrate_one\<close> the object dict of one pair
  (\<^verbatim>\<open>None.object_dict\<close> raises \<^verbatim>\<open>AttributeError\<close>).
\<close>

fun get_by_ids_async_requests :: "env \<Rightarrow> model_class \<Rightarrow> pyval list \<Rightarrow> py_error + request list" where
  "get_by_ids_async_requests E C [] = Inr []"
| "get_by_ids_async_requests E C (ident # ids) =
     (case key C (set_id E ident (Model_init C)) of
        Inl e \<Rightarrow> Inl e
      | Inr k \<Rightarrow>
          (case get_by_ids_async_requests E C ids of
             Inl e \<Rightarrow> Inl e
           | Inr rs \<Rightarrow> Inr (Hmget k (map fst (attributes C)) # rs)))"

definition hydrate_one ::
  "env \<Rightarrow> model_class \<Rightarrow> pyval \<times> fields option \<Rightarrow> py_error + (string \<times> pyval) list" where
  "hydrate_one E C p =
     (case Model_typecast_for_read E C (set_id E (fst p) (Model_init C)) (snd p) of
        Inl e \<Rightarrow> Inl e
      | Inr None \<Rightarrow> Inl AttributeError
      | Inr (Some i) \<Rightarrow> object_dict E C i)"

fun collect ::
  "env \<Rightarrow> model_class \<Rightarrow> (pyval \<times> fields option) list \<Rightarrow> (string \<times> pyval) list list \<Rightarrow>
   py_error + (string \<times> pyval) list list" where
  "collect E C [] ods = Inr ods"
| "collect E C (p # ps) ods =
     (case hydrate_one E C p of
        Inl e \<Rightarrow> Inl e
      | Inr od \<Rightarrow> collect E C ps (if any_value od then ods @ [od] else ods))"

definition get_by_ids_async_on_response ::
  "env \<Rightarrow> model_class \<Rightarrow> pyval list \<Rightarrow> (payload \<Rightarrow> 'r) option \<Rightarrow> fields option list answer \<Rightarrow>
   py_error + (string list \<times> 'r)" where
  "get_by_ids_async_on_response E C ids callback res =
     (case res of
        Failure e \<Rightarrow> call callback [e] (PayObjects [])
      | Answer rs \<Rightarrow>
          (case collect E C (zip ids rs) [] of
             Inl e \<Rightarrow> Inl e
           | Inr ods \<Rightarrow> call callback [] (PayObjects ods))
      | Nothing \<Rightarrow> call callback [''wrong type of res''] (PayObjects []))"

subsection \<open>The range and set reads\<close>

text \<open>
  \<^verbatim>\<open>get_sort_list_async\<close>, \<^verbatim>\<open>get_set_async\<close> and \<^verbatim>\<open>get_sets_async\<close>.  The first two pass on
  whatever is not an exception; the third iterates over the answer, which raises
  \<^verbatim>\<open>TypeError\<close> on \<^verbatim>\<open>None\<close>.
\<close>

definition get_sort_list_async_request ::
  "string \<Rightarrow> string option \<Rightarrow> string option \<Rightarrow> int option \<Rightarrow> bool \<Rightarrow> request" where
  "get_sort_list_async_request k start end count reverse =
     (let s = (case start of None \<Rightarrow> ''-INF'' | Some x \<Rightarrow> x);
          e = (case end of None \<Rightarrow> ''+INF'' | Some x \<Rightarrow> x);
          offset = (case count of None \<Rightarrow> None | Some c \<Rightarrow> Some 0)
      in if reverse then Zrevrangebyscore k e s offset count
         else Zrangebyscore k s e offset count)"

definition get_sort_list_async_on_response ::
  "(payload \<Rightarrow> 'r) option \<Rightarrow> string list answer \<Rightarrow> py_error + (string list \<times> 'r)" where
  "get_sort_list_async_on_response callback res =
     (case res of
        Failure e \<Rightarrow> call callback [e] (PayValues [])
      | Answer xs \<Rightarrow> call callback [] (PayValues xs)
      | Nothing \<Rightarrow> call callback [] PayNone)"

definition get_set_async_on_response ::
  "(payload \<Rightarrow> 'r) option \<Rightarrow> string list answer \<Rightarrow> py_error + (string list \<times> 'r)" where
  "get_set_async_on_response callback res =
     (case res of
        Failure e \<Rightarrow> call callback [e] (PayValues [])
      | Answer xs \<Rightarrow> call callback [] (PayValues xs)
      | Nothing \<Rightarrow> call callback [] PayNone)"

definition get_sets_async_on_response ::
  "(payload \<Rightarrow> 'r) option \<Rightarrow> string list list answer \<Rightarrow> py_error + (string list \<times> 'r)" where
  "get_sets_async_on_response callback res =
     (case res of
        Failure e \<Rightarrow> call callback [e] (PayGroups [])
      | Answer xss \<Rightarrow> call callback [] (PayGroups xss)
      | Nothing \<Rightarrow> Inl TypeError)"

section \<open>Properties of the write loop\<close>

text \<open>
  A well-formed record type: the keys of \<^verbatim>\<open>_attributes\<close> are distinct, as the keys of a dict
  are, and none begins with an underscore.  \<open>field_value\<close> is the value the loop reads for a
  field (after the \<^verbatim>\<open>auto_now\<close> assignments); \<open>stored_as\<close> says what the loop leaves in the
  hash for it.  \<open>stored_counter\<close> is the integer the store holds for a field of a hash, 0
  when the key or the field is absent, as \<^verbatim>\<open>hincrby\<close> reads it.
\<close>

definition underscored :: "string \<Rightarrow> bool" where
  "underscored n = (n \<noteq> [] \<and> hd n = CHR ''_'')"

definition wf_class :: "model_class \<Rightarrow> bool" where
  "wf_class C =
     (distinct (map fst (attributes C)) \<and> list_all (\<lambda>ka. \<not> underscored (fst ka)) (attributes C))"

definition field_value ::
  "env \<Rightarrow> model_class \<Rightarrow> bool \<Rightarrow> inst \<Rightarrow> string \<times> attribute \<Rightarrow> py_error + pyval" where
  "field_value E C new i ka =
     (case auto_timestamps E C ka new i of
        Inl e \<Rightarrow> Inl e
      | Inr i1 \<Rightarrow> getattr C (fst ka) i1)"

definition stored_as ::
  "env \<Rightarrow> model_class \<Rightarrow> bool \<Rightarrow> inst \<Rightarrow> string \<times> attribute \<Rightarrow> pyval option \<Rightarrow> pyval option \<Rightarrow> bool" where
  "stored_as E C new i ka old r =
     (\<exists>v. field_value E C new i ka = Inr v \<and>
          (if v = PNone then r = old
           else \<exists>t. typecast_for_storage E (att_kind (snd ka)) v = Inr t \<and> r = Some t))"


text \<open>The class binds the name to a field descriptor.\<close>

definition is_descriptor :: "model_class \<Rightarrow> string \<Rightarrow> bool" where
  "is_descriptor C n =
     (case map_of (namespace C) n of
        Some (DAttribute a) \<Rightarrow> True
      | Some (DReference r) \<Rightarrow> True
      | _ \<Rightarrow> False)"

lemma getattr_descriptor: "is_descriptor C n \<Longrightarrow> getattr C n i = Inl TypeError"
  by (auto simp: is_descriptor_def getattr_def split: option.splits declared.splits)

lemma typecast_for_storage_text:
  "typecast_for_storage E kind v = Inr t \<Longrightarrow> \<exists>s. t = PStr s"
  by (cases "(E, kind, v)" rule: typecast_for_storage.cases)
     (auto split: if_splits sum.splits pyval.splits)

lemma underscored_prefix: "underscored (''_'' @ n)"
  by (simp add: underscored_def)

lemma setattr_now_frame:
  assumes "setattr_now E C k i = Inr i'"
  shows "inst_id i' = inst_id i" "\<And>n. n \<noteq> k \<Longrightarrow> \<not> underscored n \<Longrightarrow> inst_dict i' n = inst_dict i n"
  using assms underscored_prefix
  by (auto simp: setattr_now_def descriptor_set_def Attribute_set_def
      split: option.splits declared.splits if_splits)

lemma setattr_now_cong:
  assumes "\<not> underscored k" "inst_dict i1 k = inst_dict i2 k"
  shows "rel_sum (=) (\<lambda>j1 j2. inst_dict j1 k = inst_dict j2 k)
           (setattr_now E C k i1) (setattr_now E C k i2)"
  using assms underscored_prefix [of "att_name a" for a]
  by (auto simp: setattr_now_def descriptor_set_def Attribute_set_def
      split: option.splits declared.splits)

lemma set_now_frame:
  assumes "set_now E C k an ana new i = Inr i'"
  shows "inst_id i' = inst_id i" "\<And>n. n \<noteq> k \<Longrightarrow> \<not> underscored n \<Longrightarrow> inst_dict i' n = inst_dict i n"
proof -
  from assms obtain i1 where
    a: "(if an then setattr_now E C k i else Inr i) = Inr i1" and
    b: "(if ana \<and> new then setattr_now E C k i1 else Inr i1) = Inr i'"
    by (auto simp: set_now_def split: sum.splits)
  have a1: "inst_id i1 = inst_id i"
    and a2: "\<And>n. n \<noteq> k \<Longrightarrow> \<not> underscored n \<Longrightarrow> inst_dict i1 n = inst_dict i n"
    using a setattr_now_frame [of E C k i i1] by (auto split: if_splits)
  have b1: "inst_id i' = inst_id i1"
    and b2: "\<And>n. n \<noteq> k \<Longrightarrow> \<not> underscored n \<Longrightarrow> inst_dict i' n = inst_dict i1 n"
    using b setattr_now_frame [of E C k i1 i'] by (auto split: if_splits)
  show "inst_id i' = inst_id i" using a1 b1 by simp
  show "\<And>n. n \<noteq> k \<Longrightarrow> \<not> underscored n \<Longrightarrow> inst_dict i' n = inst_dict i n"
    using a2 b2 by simp
qed

lemma set_now_cong:
  assumes "\<not> underscored k" "inst_dict i1 k = inst_dict i2 k"
  shows "rel_sum (=) (\<lambda>j1 j2. inst_dict j1 k = inst_dict j2 k)
           (set_now E C k an ana new i1) (set_now E C k an ana new i2)"
proof -
  let ?R = "rel_sum (=) (\<lambda>j1 j2. inst_dict j1 k = inst_dict j2 k)"
  have first: "?R (if an then setattr_now E C k i1 else Inr i1) (if an then setattr_now E C k i2 else Inr i2)"
    using setattr_now_cong [OF assms] assms(2) by simp
  show ?thesis
  proof (cases "if an then setattr_now E C k i1 else Inr i1")
    case (Inl e)
    with first show ?thesis by (cases "if an then setattr_now E C k i2 else Inr i2") (auto simp: set_now_def)
  next
    case (Inr j1)
    with first obtain j2 where j2: "(if an then setattr_now E C k i2 else Inr i2) = Inr j2"
      and eq: "inst_dict j1 k = inst_dict j2 k"
      by (cases "if an then setattr_now E C k i2 else Inr i2") auto
    from setattr_now_cong [OF assms(1) eq] eq Inr j2 show ?thesis
      by (simp add: set_now_def)
  qed
qed

lemma auto_timestamps_frame:
  assumes "auto_timestamps E C (k, a) new i = Inr i'"
  shows "inst_id i' = inst_id i" "\<And>n. n \<noteq> k \<Longrightarrow> \<not> underscored n \<Longrightarrow> inst_dict i' n = inst_dict i n"
  using assms
  by (auto simp: auto_timestamps_def split: field_kind.splits dest: set_now_frame)

lemma auto_timestamps_cong:
  assumes "\<not> underscored k" "inst_dict i1 k = inst_dict i2 k"
  shows "rel_sum (=) (\<lambda>j1 j2. inst_dict j1 k = inst_dict j2 k)
           (auto_timestamps E C (k, a) new i1) (auto_timestamps E C (k, a) new i2)"
  using set_now_cong [OF assms] assms(2)
  by (auto simp: auto_timestamps_def split: field_kind.splits)

lemma getattr_cong:
  "inst_dict i1 n = inst_dict i2 n \<Longrightarrow> getattr C n i1 = getattr C n i2"
  by (simp add: getattr_def split: option.splits declared.splits)

lemma field_value_cong:
  assumes "\<not> underscored k" "inst_dict i1 k = inst_dict i2 k"
  shows "field_value E C new i1 (k, a) = field_value E C new i2 (k, a)"
proof -
  from auto_timestamps_cong [OF assms, of E C a new] show ?thesis
    by (cases "auto_timestamps E C (k, a) new i1"; cases "auto_timestamps E C (k, a) new i2")
       (auto simp: field_value_def intro: getattr_cong)
qed

lemma store_field_step:
  assumes "store_field E C new (k, a) (h, i) = Inr (h', i')"
  shows "inst_id i' = inst_id i"
    "\<And>n. n \<noteq> k \<Longrightarrow> \<not> underscored n \<Longrightarrow> inst_dict i' n = inst_dict i n"
    "\<exists>v. field_value E C new i (k, a) = Inr v \<and>
         (if v = PNone then h' = h
          else \<exists>t. typecast_for_storage E (att_kind a) v = Inr t \<and> h' = AList.update k t h)"
proof -
  from assms obtain v where at: "auto_timestamps E C (k, a) new i = Inr i'"
    and g: "getattr C k i' = Inr v"
    and hh: "if v = PNone then h' = h
          else \<exists>t. typecast_for_storage E (att_kind a) v = Inr t \<and> h' = AList.update k t h"
    by (auto simp: store_field_def split: sum.splits if_splits)
  from auto_timestamps_frame [OF at]
  show "inst_id i' = inst_id i" "\<And>n. n \<noteq> k \<Longrightarrow> \<not> underscored n \<Longrightarrow> inst_dict i' n = inst_dict i n"
    by simp_all
  from at g have "field_value E C new i (k, a) = Inr v" by (simp add: field_value_def)
  with hh show "\<exists>v. field_value E C new i (k, a) = Inr v \<and>
         (if v = PNone then h' = h
          else \<exists>t. typecast_for_storage E (att_kind a) v = Inr t \<and> h' = AList.update k t h)"
    by blast
qed

lemma store_fields_result:
  "list_all (\<lambda>ka. \<not> underscored (fst ka)) kas \<Longrightarrow> distinct (map fst kas) \<Longrightarrow>
    store_fields E C new kas (h, i) = Inr (h', i') \<Longrightarrow>
    inst_id i' = inst_id i \<and>
    (\<forall>n. n \<notin> fst ` set kas \<longrightarrow> map_of h' n = map_of h n) \<and>
    (\<forall>n. n \<notin> fst ` set kas \<longrightarrow> \<not> underscored n \<longrightarrow> inst_dict i' n = inst_dict i n) \<and>
    (\<forall>ka \<in> set kas. stored_as E C new i ka (map_of h (fst ka)) (map_of h' (fst ka)))"
proof (induction kas arbitrary: h i)
  case Nil
  then show ?case by simp
next
  case (Cons ka kas)
  obtain k a where ka: "ka = (k, a)" by (cases ka)
  from Cons.prems(3) obtain h1 i1 where
    step: "store_field E C new (k, a) (h, i) = Inr (h1, i1)" and
    rest: "store_fields E C new kas (h1, i1) = Inr (h', i')"
    by (auto simp: ka split: sum.splits)
  note s = store_field_step [OF step]
  from Cons.prems have pub: "list_all (\<lambda>ka. \<not> underscored (fst ka)) kas" and dist: "distinct (map fst kas)"
    and knot: "k \<notin> fst ` set kas" and kpub: "\<not> underscored k"
    by (auto simp: ka)
  note ih = Cons.IH [OF pub dist rest]
  from s(3) obtain v where fv: "field_value E C new i (k, a) = Inr v"
    and hv: "if v = PNone then h1 = h
         else \<exists>t. typecast_for_storage E (att_kind a) v = Inr t \<and> h1 = AList.update k t h"
    by blast
  have h1_other: "\<And>n. n \<noteq> k \<Longrightarrow> map_of h1 n = map_of h n"
    using hv by (auto simp: update_conv' split: if_splits)
  have h1_k: "stored_as E C new i (k, a) (map_of h k) (map_of h1 k)"
    using fv hv by (auto simp: stored_as_def update_conv' split: if_splits)
  have frame: "inst_id i' = inst_id i"
    using ih s(1) by simp
  have others: "\<forall>n. n \<notin> fst ` set (ka # kas) \<longrightarrow> map_of h' n = map_of h n"
    using ih h1_other by (auto simp: ka)
  have others': "\<forall>n. n \<notin> fst ` set (ka # kas) \<longrightarrow> \<not> underscored n \<longrightarrow> inst_dict i' n = inst_dict i n"
    using ih s(2) by (auto simp: ka)
  have this_one: "stored_as E C new i (k, a) (map_of h k) (map_of h' k)"
    using ih knot h1_k by simp
  have later: "\<forall>kb \<in> set kas. stored_as E C new i kb (map_of h (fst kb)) (map_of h' (fst kb))"
  proof
    fix kb assume kb: "kb \<in> set kas"
    then have ne: "fst kb \<noteq> k" using knot by auto
    from kb pub have kbpub: "\<not> underscored (fst kb)" by (auto simp: list_all_iff)
    have "field_value E C new i1 (fst kb, snd kb) = field_value E C new i (fst kb, snd kb)"
      by (rule field_value_cong [OF kbpub]) (use s(2) ne kbpub in auto)
    moreover from ih kb have "stored_as E C new i1 kb (map_of h1 (fst kb)) (map_of h' (fst kb))"
      by blast
    ultimately show "stored_as E C new i kb (map_of h (fst kb)) (map_of h' (fst kb))"
      using h1_other [OF ne] by (simp add: stored_as_def)
  qed
  from frame others others' this_one later show ?case by (simp add: ka)
qed

lemma store_fields_keys:
  "distinct (map fst h) \<Longrightarrow> store_fields E C new kas (h, i) = Inr (h', i') \<Longrightarrow>
   distinct (map fst h')"
proof (induction kas arbitrary: h i)
  case Nil
  then show ?case by simp
next
  case (Cons ka kas)
  from Cons.prems(2) obtain h1 i1 where
    step: "store_field E C new ka (h, i) = Inr (h1, i1)" and
    rest: "store_fields E C new kas (h1, i1) = Inr (h', i')"
    by (auto split: sum.splits)
  from step Cons.prems(1) have "distinct (map fst h1)"
    by (auto simp: store_field_def distinct_update split: sum.splits if_splits)
  from Cons.IH [OF this rest] show ?case .
qed

lemma store_fields_raises:
  "(k, a) \<in> set kas \<Longrightarrow> is_descriptor C k \<Longrightarrow> \<exists>e. store_fields E C new kas s = Inl e"
proof (induction kas arbitrary: s)
  case Nil
  then show ?case by simp
next
  case (Cons kb kas)
  show ?case
  proof (cases "store_field E C new kb s")
    case (Inl e)
    then show ?thesis by simp
  next
    case (Inr s')
    have "kb \<noteq> (k, a)"
    proof
      assume "kb = (k, a)"
      with Inr getattr_descriptor [OF Cons.prems(2)] show False
        by (auto simp: store_field_def split: prod.splits sum.splits)
    qed
    with Cons.prems have "(k, a) \<in> set kas" by simp
    from Cons.IH [OF this Cons.prems(2)] Inr show ?thesis by simp
  qed
qed




lemma hash_text_lookup:
  "map_of h k = Some (PStr t) \<Longrightarrow> hash_text E h k = Some t"
  by (induction h) (auto simp: hash_text_def)



lemma Model_write_result:
  assumes "Model_write E C new i w = (Inr i', w')"
  shows "\<exists>h ky. store_fields E C new (attributes C) ([], i) = Inr (h, i') \<and>
           key C i' = Inr ky \<and> clock w' = clock w \<and>
           store w' = (store w)(ky := if h = [] then None else Some (RHash (hash_text E h)))"
proof -
  from assms obtain h ky where
    run: "store_fields E C new (attributes C) ([], i) = Inr (h, i')" and
    ky: "key C i' = Inr ky" and
    w': "w' = (if h \<noteq> [] then
                 (issue (HMSET ky (hash_text E h)) (delete ky w))
                   \<lparr>store := (store (delete ky w))(ky \<mapsto> RHash (hash_text E h))\<rparr>
               else delete ky w)"
    by (auto simp: Model_write_def hmset_def delete_def issue_def split: sum.splits if_splits)
  from w' have "clock w' = clock w \<and>
      store w' = (store w)(ky := if h = [] then None else Some (RHash (hash_text E h)))"
    by (auto simp: delete_def issue_def)
  with run ky show ?thesis by blast
qed

lemma Model_write_raises:
  assumes "(k, a) \<in> set (attributes C)" "is_descriptor C k"
  shows "\<exists>e. Model_write E C new i w = (Inl e, w)"
  using store_fields_raises [OF assms, of E new "([], i)"] by (auto simp: Model_write_def)

section \<open>Fields declared in a class body\<close>

text \<open>
  A name that the class body binds to an attribute is bound to a descriptor on the class
  the metaclass builds, and the keys of \<^verbatim>\<open>_attributes\<close> are distinct.
\<close>

fun is_field :: "declared \<Rightarrow> bool" where
  "is_field (DValue v) = False"
| "is_field d = True"

lemma update_fields:
  "list_all (\<lambda>kv. is_field (snd kv)) al \<Longrightarrow> is_field v \<Longrightarrow>
   list_all (\<lambda>kv. is_field (snd kv)) (AList.update k v al)"
  by (induction al) auto

lemma backing_fields:
  "list_all (\<lambda>kv. is_field (snd kv)) acc \<Longrightarrow>
   list_all (\<lambda>kv. is_field (snd kv)) (fold backing_attribute xs acc)"
proof (induction xs arbitrary: acc)
  case Nil
  then show ?case by simp
next
  case (Cons x xs)
  have "list_all (\<lambda>kv. is_field (snd kv)) (backing_attribute x acc)"
    using Cons.prems by (cases "snd x") (simp_all add: backing_attribute_def update_fields)
  from Cons.IH [OF this] show ?case by simp
qed

lemma fold_update_field:
  "list_all (\<lambda>kv. is_field (snd kv)) B \<Longrightarrow> \<exists>d. map_of al k = Some d \<and> is_field d \<Longrightarrow>
   \<exists>d. map_of (fold (\<lambda>kv. AList.update (fst kv) (snd kv)) B al) k = Some d \<and> is_field d"
proof (induction B arbitrary: al)
  case Nil
  then show ?case by simp
next
  case (Cons b B)
  from Cons.prems have "\<exists>d. map_of (AList.update (fst b) (snd b) al) k = Some d \<and> is_field d"
    by (auto simp: update_conv')
  from Cons.IH [OF _ this] Cons.prems(1) show ?case by simp
qed

lemma bound_frame: "fst (bound kv) = fst kv" "is_field (snd (bound kv)) = is_field (snd kv)"
  by (cases "snd kv"; simp add: bound_def)+

lemma map_of_bound:
  "map_of al k = Some d \<Longrightarrow> \<exists>d'. map_of (map bound al) k = Some d' \<and> is_field d' = is_field d"
proof (induction al)
  case Nil
  then show ?case by simp
next
  case (Cons p al)
  have m: "map_of (map bound (p # al)) k =
      (if fst p = k then Some (snd (bound p)) else map_of (map bound al) k)"
    using bound_frame(1) [of p] by (cases "bound p") auto
  show ?case
  proof (cases "fst p = k")
    case True
    with Cons.prems have "d = snd p" by (cases p) auto
    with True m bound_frame(2) [of p] show ?thesis by simp
  next
    case False
    with Cons.prems have "map_of al k = Some d" by (cases p) auto
    from Cons.IH [OF this] m False show ?thesis by simp
  qed
qed

lemma declared_field_is_descriptor:
  assumes "map_of attrs k = Some (DAttribute a)"
  shows "is_descriptor (ModelBase_init name parents attrs meta_key hook) k"
proof -
  let ?B = "fold backing_attribute attrs []"
  let ?attrs' = "fold (\<lambda>kv. AList.update (fst kv) (snd kv)) ?B attrs"
  have "list_all (\<lambda>kv. is_field (snd kv)) ?B" by (rule backing_fields) simp
  moreover have "\<exists>d. map_of attrs k = Some d \<and> is_field d" using assms by simp
  ultimately have "\<exists>d. map_of ?attrs' k = Some d \<and> is_field d"
    by (rule fold_update_field)
  then obtain d where d: "map_of ?attrs' k = Some d" "is_field d" by blast
  from map_of_bound [OF d(1)] d(2) obtain d' where
    d': "map_of (map bound ?attrs') k = Some d'" "is_field d'" by auto
  have ns: "namespace (ModelBase_init name parents attrs meta_key hook) =
      map bound ?attrs' @ concat (map namespace parents)"
    by (simp add: ModelBase_init_def initialize_references_def)
  have "map_of (namespace (ModelBase_init name parents attrs meta_key hook)) k = Some d'"
    unfolding ns using d'(1) by (simp only: map_of_append map_add_Some_iff) simp
  with d'(2) show ?thesis
    by (cases d') (simp_all add: is_descriptor_def)
qed

lemma inherit_distinct_aux:
  "distinct (map fst d) \<Longrightarrow> distinct (map fst (fold (\<lambda>kv. AList.update (fst kv) (snd kv)) p d))"
  by (induction p arbitrary: d) (auto simp: distinct_update)

lemma inherit_distinct: "distinct (map fst (inherit ps))"
proof -
  have "distinct (map fst d) \<Longrightarrow>
      distinct (map fst (fold (\<lambda>p d. fold (\<lambda>kv. AList.update (fst kv) (snd kv)) p d) ps d))" for d :: "(string \<times> 'a) list"
    by (induction ps arbitrary: d) (auto simp: inherit_distinct_aux)
  then show ?thesis by (simp add: inherit_def)
qed

lemma own_attributes_distinct:
  "distinct (map fst d) \<Longrightarrow> distinct (map fst (fold own_attribute xs d))"
  by (induction xs arbitrary: d) (auto simp: own_attribute_def distinct_update split: declared.splits)

lemma attributes_distinct:
  "distinct (map fst (attributes (ModelBase_init name parents attrs meta_key hook)))"
  by (simp add: ModelBase_init_def initialize_references_def initialize_attributes_def
      own_attributes_distinct inherit_distinct split: prod.splits)


lemma update_keyed:
  "list_all P al \<Longrightarrow> P (k, v) \<Longrightarrow> list_all P (AList.update k v al)"
  by (induction al) auto

definition self_named :: "string \<times> declared \<Rightarrow> bool" where
  "self_named kv = (\<exists>b. snd kv = DAttribute b \<and> att_name (named (fst kv) b) = fst kv)"

lemma backing_self_named:
  "list_all self_named acc \<Longrightarrow> list_all self_named (fold backing_attribute xs acc)"
proof (induction xs arbitrary: acc)
  case Nil
  then show ?case by simp
next
  case (Cons x xs)
  have "list_all self_named (backing_attribute x acc)"
  proof (cases "snd x")
    case (DReference r)
    have "self_named (ref_attname (ref_named (fst x) r),
        DAttribute \<lparr>att_name = ref_attname (ref_named (fst x) r), att_required = False,
                     att_default = PNone, att_validator = None, att_kind = Attribute\<rparr>)"
      by (simp add: self_named_def named_def)
    with Cons.prems DReference show ?thesis
      by (simp add: backing_attribute_def update_keyed)
  qed (use Cons.prems in \<open>simp_all add: backing_attribute_def\<close>)
  from Cons.IH [OF this] show ?case by simp
qed

lemma fold_update_self_named:
  "list_all self_named B \<Longrightarrow> \<exists>d. map_of al k = Some d \<and> self_named (k, d) \<Longrightarrow>
   \<exists>d. map_of (fold (\<lambda>kv. AList.update (fst kv) (snd kv)) B al) k = Some d \<and> self_named (k, d)"
proof (induction B arbitrary: al)
  case Nil
  then show ?case by simp
next
  case (Cons b B)
  from Cons.prems have "\<exists>d. map_of (AList.update (fst b) (snd b) al) k = Some d \<and> self_named (k, d)"
    by (cases b) (auto simp: update_conv')
  from Cons.IH [OF _ this] Cons.prems(1) show ?case by simp
qed

lemma fold_update_distinct:
  "distinct (map fst al) \<Longrightarrow> distinct (map fst (fold (\<lambda>kv. AList.update (fst kv) (snd kv)) B al))"
  by (induction B arbitrary: al) (auto simp: distinct_update)

lemma own_attribute_lookup:
  "distinct (map fst xs) \<Longrightarrow> map_of xs k = Some (DAttribute b) \<Longrightarrow>
   map_of (fold own_attribute xs d) k = Some (named k b)"
proof (induction xs arbitrary: d)
  case Nil
  then show ?case by simp
next
  case (Cons x xs)
  obtain k' v where x: "x = (k', v)" by (cases x)
  show ?case
  proof (cases "k' = k")
    case True
    with Cons.prems x have v: "v = DAttribute b" and notin: "k \<notin> fst ` set xs" by auto
    have keep: "map_of (fold own_attribute ys e) k = map_of e k" if "k \<notin> fst ` set ys" for ys e
      using that
      by (induction ys arbitrary: e) (auto simp: own_attribute_def update_conv' split: declared.splits)
    have "map_of (fold own_attribute xs (AList.update k (named k b) d)) k =
        map_of (AList.update k (named k b) d) k"
      by (rule keep [OF notin])
    moreover have "own_attribute (k, DAttribute b) d = AList.update k (named k b) d"
      by (simp add: own_attribute_def)
    ultimately show ?thesis using True v x by (simp add: update_conv')
  next
    case False
    with Cons.prems x have "distinct (map fst xs)" "map_of xs k = Some (DAttribute b)" by auto
    from Cons.IH [OF this] x show ?thesis by simp
  qed
qed

lemma declared_attribute:
  assumes "distinct (map fst attrs)" "map_of attrs k = Some (DAttribute a)"
    "att_name a = [] \<or> att_name a = k"
  shows "\<exists>a'. (k, a') \<in> set (attributes (ModelBase_init name parents attrs meta_key hook)) \<and>
           att_name a' = k \<and> is_descriptor (ModelBase_init name parents attrs meta_key hook) k"
proof -
  let ?B = "fold backing_attribute attrs []"
  let ?attrs' = "fold (\<lambda>kv. AList.update (fst kv) (snd kv)) ?B attrs"
  have B: "list_all self_named ?B" by (rule backing_self_named) simp
  have "\<exists>d. map_of attrs k = Some d \<and> self_named (k, d)"
    using assms(2,3) by (auto simp: self_named_def named_def)
  with B have "\<exists>d. map_of ?attrs' k = Some d \<and> self_named (k, d)"
    by (rule fold_update_self_named)
  then obtain b where b: "map_of ?attrs' k = Some (DAttribute b)" "att_name (named k b) = k"
    by (auto simp: self_named_def)
  have dist: "distinct (map fst ?attrs')" using assms(1) by (rule fold_update_distinct)
  have at: "attributes (ModelBase_init name parents attrs meta_key hook) =
      fold own_attribute ?attrs' (inherit (map attributes parents))"
    by (simp add: ModelBase_init_def initialize_references_def initialize_attributes_def)
  have "map_of (attributes (ModelBase_init name parents attrs meta_key hook)) k = Some (named k b)"
    unfolding at by (rule own_attribute_lookup [OF dist b(1)])
  then have "(k, named k b) \<in> set (attributes (ModelBase_init name parents attrs meta_key hook))"
    by (rule map_of_SomeD)
  with b(2) declared_field_is_descriptor [OF assms(2), of name parents meta_key hook]
  show ?thesis by blast
qed

section \<open>Record types for the closed examples\<close>

text \<open>
  \<open>Person\<close> has a required text field and an optional one; \<open>Page\<close> has a text field with a
  default and a counter; \<open>Comment\<close> has a text field and a required reference to a
  \<open>Person\<close>.  \<open>Guest\<close> is a subclass of \<open>Person\<close> whose body binds the names of both fields
  to plain values, \<^verbatim>\<open>name = 'guest'\<close> and \<^verbatim>\<open>nick = None\<close>.  All are built by the metaclass.
\<close>

definition no_hook :: "inst \<Rightarrow> (string \<times> string) list" where
  "no_hook i = []"

definition Person :: model_class where
  "Person = ModelBase_init ''Person'' []
     [(''name'', DAttribute \<lparr>att_name = [], att_required = True, att_default = PNone,
                              att_validator = None, att_kind = CharField 2048\<rparr>),
      (''nick'', DAttribute \<lparr>att_name = [], att_required = False, att_default = PNone,
                              att_validator = None, att_kind = Attribute\<rparr>)]
     [] no_hook"

definition Page :: model_class where
  "Page = ModelBase_init ''Page'' []
     [(''title'', DAttribute \<lparr>att_name = [], att_required = False, att_default = PStr ''untitled'',
                               att_validator = None, att_kind = Attribute\<rparr>),
      (''hits'', DAttribute (Counter_init False None))]
     [] no_hook"

definition Comment :: model_class where
  "Comment = ModelBase_init ''Comment'' []
     [(''text'', DAttribute \<lparr>att_name = [], att_required = False, att_default = PNone,
                              att_validator = None, att_kind = Attribute\<rparr>),
      (''author'', DReference \<lparr>ref_name = [], ref_required = True, ref_default = PNone,
                                ref_validator = None, ref_target = ''Person'', ref_attname = []\<rparr>)]
     [] no_hook"

definition Guest :: model_class where
  "Guest = ModelBase_init ''Guest'' [Person]
     [(''name'', DValue (PStr ''guest'')), (''nick'', DValue PNone)] [] no_hook"

definition name_field :: attribute where
  "name_field = \<lparr>att_name = ''name'', att_required = True, att_default = PNone,
                  att_validator = None, att_kind = CharField 2048\<rparr>"

definition nick_field :: attribute where
  "nick_field = \<lparr>att_name = ''nick'', att_required = False, att_default = PNone,
                  att_validator = None, att_kind = Attribute\<rparr>"

definition title_field :: attribute where
  "title_field = \<lparr>att_name = ''title'', att_required = False, att_default = PStr ''untitled'',
                   att_validator = None, att_kind = Attribute\<rparr>"

definition hits_field :: attribute where
  "hits_field = \<lparr>att_name = ''hits'', att_required = False, att_default = PInt 0,
                  att_validator = None, att_kind = Counter\<rparr>"

definition text_field :: attribute where
  "text_field = \<lparr>att_name = ''text'', att_required = False, att_default = PNone,
                  att_validator = None, att_kind = Attribute\<rparr>"

definition author_id_field :: attribute where
  "author_id_field = \<lparr>att_name = ''author_id'', att_required = False, att_default = PNone,
                       att_validator = None, att_kind = Attribute\<rparr>"

definition author_ref :: reference where
  "author_ref = \<lparr>ref_name = ''author'', ref_required = True, ref_default = PNone,
                  ref_validator = None, ref_target = ''Person'', ref_attname = ''author_id''\<rparr>"

definition empty_world :: world where
  "empty_world = \<lparr>store = Map.empty, issued = [], clock = 0\<rparr>"

definition async_env :: env where
  "async_env = test_env\<lparr>is_async := True\<rparr>"

definition saved_page :: inst where
  "saved_page = \<lparr>inst_class = ''Page'', inst_id = Some ''1'',
                  inst_dict = [''_title'' \<mapsto> PStr ''home''], errors = []\<rparr>"

definition unread_page :: inst where
  "unread_page = \<lparr>inst_class = ''Page'', inst_id = Some ''1'', inst_dict = Map.empty, errors = []\<rparr>"

definition page_world :: world where
  "page_world = \<lparr>store = [''Page:1'' \<mapsto> RHash [''title'' \<mapsto> ''home'', ''hits'' \<mapsto> ''5'']],
                  issued = [], clock = 0\<rparr>"


definition saved_guest :: inst where
  "saved_guest = \<lparr>inst_class = ''Guest'', inst_id = Some ''1'', inst_dict = Map.empty, errors = []\<rparr>"

definition guest_written :: world where
  "guest_written =
     \<lparr>store = [''Guest:1'' \<mapsto> RHash (hash_text test_env [(''name'', PStr ''guest'')])],
      issued = [DEL ''Guest:1'', HMSET ''Guest:1'' (hash_text test_env [(''name'', PStr ''guest'')])],
      clock = 0\<rparr>"

lemmas metaclass_defs = ModelBase_init_def initialize_references_def
  initialize_attributes_def initialize_counters_def inherit_def own_attribute_def
  own_reference_def backing_attribute_def own_counter_def named_def ref_named_def bound_def
  Counter_init_def

lemma Person_simps:
  "attributes Person = [(''name'', name_field), (''nick'', nick_field)]"
  "namespace Person = [(''name'', DAttribute name_field), (''nick'', DAttribute nick_field)]"
  "references Person = []" "counters Person = []" "key_prefix Person = ''Person''"
  "cls_name Person = ''Person''" "cls_mro Person = [''Person'']" "validate_hook Person = no_hook"
  by (simp_all add: Person_def metaclass_defs name_field_def nick_field_def)

lemma Page_simps:
  "attributes Page = [(''title'', title_field), (''hits'', hits_field)]"
  "namespace Page = [(''title'', DAttribute title_field), (''hits'', DAttribute hits_field)]"
  "references Page = []" "counters Page = [''hits'']" "key_prefix Page = ''Page''"
  "cls_name Page = ''Page''" "cls_mro Page = [''Page'']" "validate_hook Page = no_hook"
  by (simp_all add: Page_def metaclass_defs title_field_def hits_field_def)

lemma Comment_simps:
  "attributes Comment = [(''text'', text_field), (''author_id'', author_id_field)]"
  "namespace Comment = [(''text'', DAttribute text_field), (''author'', DReference author_ref),
                        (''author_id'', DAttribute author_id_field)]"
  "references Comment = [(''author'', author_ref)]" "counters Comment = []"
  "key_prefix Comment = ''Comment''" "cls_name Comment = ''Comment''"
  "cls_mro Comment = [''Comment'']" "validate_hook Comment = no_hook"
  by (simp_all add: Comment_def metaclass_defs text_field_def author_id_field_def author_ref_def)

lemma Guest_simps:
  "attributes Guest = [(''name'', name_field), (''nick'', nick_field)]"
  "namespace Guest = [(''name'', DValue (PStr ''guest'')), (''nick'', DValue PNone),
                      (''name'', DAttribute name_field), (''nick'', DAttribute nick_field)]"
  "references Guest = []" "counters Guest = []" "key_prefix Guest = ''Guest''"
  "cls_name Guest = ''Guest''" "cls_mro Guest = [''Guest'', ''Person'']"
  "validate_hook Guest = no_hook"
  by (simp_all add: Guest_def metaclass_defs Person_simps)

lemma wf_Guest: "wf_class Guest"
  by (simp add: wf_class_def Guest_simps underscored_def)

lemmas eval_defs =
  getattr_def descriptor_set_def Attribute_set_def setattr_now_def is_new_def
  key_def key_att_def Key_getitem_def hget_def issue_def auto_timestamps_def set_now_def
  store_field_def field_value_def get_data_for_storage_def Model_write_def hmset_def delete_def
  test_env_def empty_world_def async_env_def Model_init_def is_descriptor_def
  name_field_def nick_field_def title_field_def hits_field_def text_field_def
  author_id_field_def author_ref_def
  Person_simps Page_simps Comment_simps Guest_simps
  saved_page_def unread_page_def page_world_def saved_guest_def

lemmas eval_text = int_of_string_def strip_def is_space_def all_digits_def is_digit_def
  digits_val_def digit_val_def str_int_def str_nat.simps digit_char_def

lemmas eval_valid = eval_defs is_valid_def validate_attribute_def CharField_validate_def
  Attribute_validate_def ReferenceField_validate_def field_errors_def no_hook_def save_def
  locked_write_def initialize_id_def


section \<open>Fields without a value are not written\<close>

text \<open>
  C5.  A field whose value is \<^verbatim>\<open>None\<close> when the hash is built is left out of it: the hash
  \<^verbatim>\<open>_get_data_for_storage\<close> returns (the asynchronous path) holds text values only and has
  no entry for the field, and after \<^verbatim>\<open>_write\<close> (the synchronous path) the stored hash has no
  such field.  When the class binds the name of the field to its descriptor, reading it
  raises and no hash is built at all: \<^verbatim>\<open>_get_data_for_storage\<close> raises, and \<^verbatim>\<open>_write\<close> raises
  before it sends a command.
\<close>

theorem written_hash_omits_none:
  assumes "wf_class C" "ka \<in> set (attributes C)"
  shows "(get_data_for_storage E C new i = Inr (h, i1) \<longrightarrow>
            list_all (\<lambda>fv. \<exists>t. snd fv = PStr t) h \<and>
            (field_value E C new i ka = Inr PNone \<longrightarrow> fst ka \<notin> fst ` set h)) \<and>
         (Model_write E C new i w = (Inr i2, w2) \<longrightarrow> field_value E C new i ka = Inr PNone \<longrightarrow>
            (\<exists>ky. key C i = Inr ky \<and>
                  (case store w2 ky of
                     None \<Rightarrow> True
                   | Some (RHash g) \<Rightarrow> g (fst ka) = None
                   | Some (RString t) \<Rightarrow> False))) \<and>
         (is_descriptor C (fst ka) \<longrightarrow>
            (\<exists>e. get_data_for_storage E C new i = Inl e) \<and>
            (\<exists>e. Model_write E C new i w = (Inl e, w)))"
proof -
  have wfd: "distinct (map fst (attributes C))"
    and pub: "list_all (\<lambda>ka. \<not> underscored (fst ka)) (attributes C)"
    using assms(1) by (simp_all add: wf_class_def)
  have main: "list_all (\<lambda>fv. \<exists>t. snd fv = PStr t) h' \<and>
      (field_value E C new i ka = Inr PNone \<longrightarrow> fst ka \<notin> fst ` set h')"
    if run: "store_fields E C new (attributes C) ([], i) = Inr (h', i')" for h' i'
  proof -
    note r = store_fields_result [OF pub wfd run]
    have d: "distinct (map fst h')" using store_fields_keys [OF _ run] by simp
    from r assms(2) have sa: "stored_as E C new i ka None (map_of h' (fst ka))" by auto
    have 1: "fst ka \<notin> fst ` set h'" if "field_value E C new i ka = Inr PNone"
    proof -
      from sa that have "map_of h' (fst ka) = None" by (simp add: stored_as_def)
      then show ?thesis by (simp add: map_of_eq_None_iff)
    qed
    have 2: "\<exists>t. v = PStr t" if "(f, v) \<in> set h'" for f v
    proof -
      from that d have m: "map_of h' f = Some v" by simp
      show ?thesis
      proof (cases "f \<in> fst ` set (attributes C)")
        case True
        then obtain a where "(f, a) \<in> set (attributes C)" by auto
        with r have "stored_as E C new i (f, a) None (map_of h' f)" by auto
        with m show ?thesis by (auto simp: stored_as_def dest: typecast_for_storage_text split: if_splits)
      next
        case False
        with r have "map_of h' f = None" by simp
        with m show ?thesis by simp
      qed
    qed
    from 1 2 show ?thesis by (auto simp: list_all_iff)
  qed
  have a: "get_data_for_storage E C new i = Inr (h, i1) \<longrightarrow>
            list_all (\<lambda>fv. \<exists>t. snd fv = PStr t) h \<and>
            (field_value E C new i ka = Inr PNone \<longrightarrow> fst ka \<notin> fst ` set h)"
    using main by (simp add: get_data_for_storage_def)
  have b: "\<exists>ky. key C i = Inr ky \<and>
                  (case store w2 ky of
                     None \<Rightarrow> True
                   | Some (RHash g) \<Rightarrow> g (fst ka) = None
                   | Some (RString t) \<Rightarrow> False)"
    if wr: "Model_write E C new i w = (Inr i2, w2)" and fv: "field_value E C new i ka = Inr PNone"
  proof -
    from Model_write_result [OF wr] obtain h' ky where
      run: "store_fields E C new (attributes C) ([], i) = Inr (h', i2)" and
      ky: "key C i2 = Inr ky" and
      st: "store w2 = (store w)(ky := if h' = [] then None else Some (RHash (hash_text E h')))"
      by blast
    note r = store_fields_result [OF pub wfd run]
    from r ky have ky': "key C i = Inr ky" by (simp add: key_def)
    from main [OF run] fv have "hash_text E h' (fst ka) = None"
      by (auto simp: hash_text_def map_of_eq_None_iff image_image case_prod_unfold)
    with ky' st show ?thesis by auto
  qed
  have c: "(\<exists>e. get_data_for_storage E C new i = Inl e) \<and>
            (\<exists>e. Model_write E C new i w = (Inl e, w))" if "is_descriptor C (fst ka)"
  proof -
    from assms(2) have m: "(fst ka, snd ka) \<in> set (attributes C)" by simp
    from store_fields_raises [OF m that] Model_write_raises [OF m that]
    show ?thesis by (simp add: get_data_for_storage_def)
  qed
  from a b c show ?thesis by blast
qed

lemma saved_guest_data:
  "get_data_for_storage test_env Guest False saved_guest = Inr ([(''name'', PStr ''guest'')], saved_guest)"
  by (simp add: eval_defs)

lemma saved_guest_write:
  "Model_write test_env Guest False saved_guest empty_world = (Inr saved_guest, guest_written)"
  by (simp add: eval_defs guest_written_def)

theorem written_hash_omits_none_witness:
  "wf_class Guest \<and> (''nick'', nick_field) \<in> set (attributes Guest) \<and>
   field_value test_env Guest False saved_guest (''nick'', nick_field) = Inr PNone \<and>
   get_data_for_storage test_env Guest False saved_guest =
     Inr ([(''name'', PStr ''guest'')], saved_guest) \<and>
   ''nick'' \<notin> fst ` set [(''name'', PStr ''guest'')] \<and>
   Model_write test_env Guest False saved_guest empty_world = (Inr saved_guest, guest_written) \<and>
   (\<exists>ky. key Guest saved_guest = Inr ky \<and>
       (case store guest_written ky of None \<Rightarrow> True | Some (RHash g) \<Rightarrow> g ''nick'' = None
        | Some (RString t) \<Rightarrow> False)) \<and>
   is_descriptor Page ''hits'' \<and>
   (\<exists>e. get_data_for_storage test_env Page False saved_page = Inl e) \<and>
   (\<exists>e. Model_write test_env Page False saved_page page_world = (Inl e, page_world))"
proof -
  have h1: "wf_class Guest" by (rule wf_Guest)
  have h2: "(''nick'', nick_field) \<in> set (attributes Guest)" by (simp add: Guest_simps)
  have h3: "field_value test_env Guest False saved_guest (''nick'', nick_field) = Inr PNone"
    by (simp add: eval_defs)
  note h4 = saved_guest_data
  note h5 = saved_guest_write
  have p1: "wf_class Page" by (simp add: wf_class_def Page_simps underscored_def)
  have p2: "(''hits'', hits_field) \<in> set (attributes Page)" by (simp add: Page_simps)
  have p3: "is_descriptor Page ''hits''" by (simp add: eval_defs)
  from written_hash_omits_none [OF h1 h2, of test_env False saved_guest
      "[(''name'', PStr ''guest'')]" saved_guest empty_world saved_guest guest_written]
    written_hash_omits_none [OF p1 p2, of test_env False saved_page "[]" saved_page page_world
      saved_page page_world]
    h1 h2 h3 h4 h5 p3
  show ?thesis by (simp cong: option.case_cong rvalue.case_cong)
qed

section \<open>Counters and save\<close>



section \<open>Reading a field\<close>

text \<open>
  C6.  Reading a field of a \<open>Page\<close> raises \<^verbatim>\<open>TypeError\<close>, for a new instance, for a saved one
  that holds a value for the field, and for the counter: the class binds the name to a
  descriptor whose \<^verbatim>\<open>__get__\<close> takes the instance alone, and attribute access passes the
  owner too.  The bodies do what a read is meant to do when they are called with the
  instance alone: for a new instance, and in asynchronous mode, \<^verbatim>\<open>Attribute.__get__\<close> returns
  the default, keeps it and sends no command; for a saved instance in synchronous mode it
  sends one \<^verbatim>\<open>hget\<close> and keeps the value, which the next call returns with no command.
  \<^verbatim>\<open>Counter.__get__\<close> returns 0 for a new instance and the stored integer for a saved one.
\<close>

theorem field_read_raises:
  "getattr Page ''title'' (Model_init Page) = Inl TypeError \<and>
   getattr Page ''title'' saved_page = Inl TypeError \<and>
   getattr Page ''hits'' saved_page = Inl TypeError \<and>
   Attribute_get test_env Page title_field (Model_init Page) empty_world =
     Inr (PStr ''untitled'',
          (Model_init Page)\<lparr>inst_dict := [''_title'' \<mapsto> PStr ''untitled'']\<rparr>, empty_world) \<and>
   Attribute_get async_env Page title_field unread_page page_world =
     Inr (PStr ''untitled'', unread_page\<lparr>inst_dict := [''_title'' \<mapsto> PStr ''untitled'']\<rparr>,
          page_world) \<and>
   Attribute_get test_env Page title_field unread_page page_world =
     Inr (PStr ''home'', saved_page, page_world\<lparr>issued := [HGET ''Page:1'' ''title'']\<rparr>) \<and>
   Attribute_get test_env Page title_field saved_page page_world =
     Inr (PStr ''home'', saved_page, page_world) \<and>
   Counter_get test_env Page hits_field (Model_init Page) empty_world =
     Inr (PInt 0, Model_init Page, empty_world) \<and>
   Counter_get test_env Page hits_field saved_page page_world =
     Inr (PInt 5, saved_page, page_world\<lparr>issued := [HGET ''Page:1'' ''hits'']\<rparr>)"
  by (simp add: eval_defs eval_text Attribute_get_def Counter_get_def)

section \<open>Required fields\<close>

text \<open>
  C4.  Saving a new \<open>Person\<close>, whose required field \<^verbatim>\<open>name\<close> has no value, raises
  \<^verbatim>\<open>TypeError\<close>: \<^verbatim>\<open>Attribute.validate\<close> reads the field with \<^verbatim>\<open>getattr\<close>, and \<^verbatim>\<open>is_valid\<close> catches
  \<^verbatim>\<open>FieldValidationError\<close> only.  No list of errors is returned; the store is left as it
  was.  The same holds for a new \<open>Comment\<close>, whose required reference has no value.
\<close>

theorem save_raises_on_missing_required_field:
  "(''name'', name_field) \<in> set (attributes Person) \<and> att_required name_field \<and>
   is_valid test_env Person (Model_init Person) = Inl TypeError \<and>
   save test_env Person (Model_init Person) empty_world = Some (Inl TypeError, empty_world) \<and>
   (''author'', author_ref) \<in> set (references Comment) \<and> ref_required author_ref \<and>
   is_valid test_env Comment (Model_init Comment) = Inl TypeError \<and>
   save test_env Comment (Model_init Comment) empty_world = Some (Inl TypeError, empty_world)"
  by (simp add: eval_valid)

section \<open>Store failures in the batch operations\<close>

text \<open>
  C8.  When the store answers with an exception, each of the five batch operations logs the
  exception and calls the application's callback, with \<^verbatim>\<open>None\<close> in \<^verbatim>\<open>get_by_id_async\<close> and with
  the empty list in the four others, and raises nothing.
\<close>

theorem store_failure_gives_empty_result:
  "get_by_id_async_on_response E C ident (Some callback) (Failure e) =
     Inr ([e], callback PayNone) \<and>
   get_by_ids_async_on_response E C ids (Some callback) (Failure e) =
     Inr ([e], callback (PayObjects [])) \<and>
   get_sort_list_async_on_response (Some callback) (Failure e) =
     Inr ([e], callback (PayValues [])) \<and>
   get_set_async_on_response (Some callback) (Failure e) = Inr ([e], callback (PayValues [])) \<and>
   get_sets_async_on_response (Some callback) (Failure e) = Inr ([e], callback (PayGroups []))"
  by (simp add: get_by_id_async_on_response_def get_by_ids_async_on_response_def
      get_sort_list_async_on_response_def get_set_async_on_response_def
      get_sets_async_on_response_def call_def)

section \<open>Records that do not exist in a batch read\<close>

lemmas eval_manager = eval_defs get_by_ids_async_on_response_def get_by_id_async_on_response_def
  call_def hydrate_one_def Model_typecast_for_read_def hydrate_field_def set_id_def
  object_dict_def object_field_def any_value_def get_by_ids_async_requests.simps

text \<open>
  C7.  \<^verbatim>\<open>get_by_ids_async\<close> is asked for three \<open>Person\<close> records of which the second does not
  exist: its \<^verbatim>\<open>hmget\<close> answers \<^verbatim>\<open>None\<close> for every field.  The three commands are sent in
  the order of the identities.  \<^verbatim>\<open>on_response\<close> raises \<^verbatim>\<open>TypeError\<close> at the first record,
  where \<^verbatim>\<open>object_dict\<close> reads the fields with \<^verbatim>\<open>getattr\<close>, and the callback is not called.
  \<^verbatim>\<open>get_by_id_async\<close>, which does not read the fields back, hands the first record to its
  callback and \<^verbatim>\<open>None\<close> for the second.
\<close>

theorem get_by_ids_async_raises:
  "get_by_ids_async_requests async_env Person [PInt 1, PInt 2, PInt 3] =
     Inr [Hmget ''Person:1'' [''name'', ''nick''], Hmget ''Person:2'' [''name'', ''nick''],
          Hmget ''Person:3'' [''name'', ''nick'']] \<and>
   get_by_ids_async_on_response async_env Person [PInt 1, PInt 2, PInt 3] (Some id)
     (Answer [Some [(''name'', Some ''ann''), (''nick'', None)],
              Some [(''name'', None), (''nick'', None)],
              Some [(''name'', Some ''cy''), (''nick'', None)]]) = Inl TypeError \<and>
   get_by_id_async_on_response async_env Person (PInt 1) (Some id)
     (Answer [(''name'', Some ''ann''), (''nick'', None)]) =
     Inr ([], PayInstance \<lparr>inst_class = ''Person'', inst_id = Some ''1'',
                            inst_dict = [''_name'' \<mapsto> PStr ''ann'', ''_nick'' \<mapsto> PNone],
                            errors = []\<rparr>) \<and>
   get_by_id_async_on_response async_env Person (PInt 2) (Some id)
     (Answer [(''name'', None), (''nick'', None)]) = Inr ([], PayNone)"
  by (simp add: eval_manager eval_text)

section \<open>Equal instances\<close>








section \<open>The lock as a lease\<close>

text \<open>
  \<open>held k l w\<close>: the lock key holds the text \<open>l\<close>, a lease another writer has written.
  \<open>expired l w\<close>: \<^verbatim>\<open>lock_has_expired(l)\<close> is true at the time of \<open>w\<close>.
\<close>

definition held :: "string \<Rightarrow> string \<Rightarrow> world \<Rightarrow> bool" where
  "held k l w = (store w k = Some (RString l) \<and> l \<noteq> [])"

definition expired :: "string \<Rightarrow> world \<Rightarrow> bool" where
  "expired l w = (lock_has_expired l w = Inr True)"

lemma lock_has_expired_clock:
  "clock w1 = clock w2 \<Longrightarrow> lock_has_expired l w1 = lock_has_expired l w2"
  by (simp add: lock_has_expired_def split: sum.splits)

lemma lock_step_acquires:
  assumes "pc \<noteq> Acquired" "lock_step k (pc, w) = (Acquired, w')"
  shows "store w' k = Some (RString (lock_timeout w)) \<and>
         ((pc = AtSetnx \<and> store w k = None) \<or>
          (pc = AtGetset \<and>
             (store w k = None \<or> store w k = Some (RString []) \<or>
              (\<exists>l. store w k = Some (RString l) \<and> expired l w))))"
proof (cases pc)
  case AtSetnx
  with assms show ?thesis
    by (auto simp: lock_step_def setnx_def issue_def split: option.splits if_splits)
next
  case AtGet
  with assms show ?thesis
    by (auto simp: lock_step_def split: sum.splits prod.splits if_splits)
next
  case AtGetset
  show ?thesis
  proof (cases "store w k")
    case None
    with assms AtGetset show ?thesis
      by (auto simp: lock_step_def getset_def issue_def absent_or_empty_def split: if_splits)
  next
    case (Some r)
    show ?thesis
    proof (cases r)
      case (RHash g)
      with Some assms AtGetset show ?thesis by (simp add: lock_step_def getset_def)
    next
      case (RString l)
      let ?w1 = "(issue (GETSET k (lock_timeout w)) w)\<lparr>store := (store w)(k \<mapsto> RString (lock_timeout w))\<rparr>"
      have c: "lock_has_expired l ?w1 = lock_has_expired l w"
        by (rule lock_has_expired_clock) (simp add: issue_def)
      from Some RString assms AtGetset c show ?thesis
        by (cases "lock_has_expired l w")
           (auto simp: lock_step_def getset_def absent_or_empty_def expired_def issue_def
            split: if_splits)
    qed
  qed
next
  case Sleeping
  with assms show ?thesis by (simp add: lock_step_def)
next
  case Acquired
  with assms show ?thesis by simp
next
  case (Raised e)
  with assms show ?thesis by (simp add: lock_step_def)
qed

lemma lock_step_waits:
  assumes "held k l w" "lock_has_expired l w = Inr False"
  shows "(lock_step k ^^ 3) (AtSetnx, w) =
           (AtSetnx, sleep (1 / 2) (issue (GET k) (issue (SETNX k (lock_timeout w)) w)))"
proof -
  let ?w1 = "issue (SETNX k (lock_timeout w)) w"
  let ?w2 = "issue (GET k) ?w1"
  have 1: "lock_step k (AtSetnx, w) = (AtGet, ?w1)"
    using assms(1) by (simp add: lock_step_def setnx_def held_def)
  have e: "lock_has_expired l ?w2 = Inr False"
    using assms(2) lock_has_expired_clock [of ?w2 w l] by (simp add: issue_def)
  have 2: "lock_step k (AtGet, ?w1) = (Sleeping, ?w2)"
    using assms(1) e by (simp add: lock_step_def get_def held_def issue_def absent_or_empty_def)
  have 3: "lock_step k (Sleeping, ?w2) = (AtSetnx, sleep (1 / 2) ?w2)"
    by (simp add: lock_step_def)
  show ?thesis by (simp add: numeral_3_eq_3 1 2 3)
qed

text \<open>
  What holds of an acquirer that runs against a lease nobody releases: the lease is in
  place until the acquirer replaces it, and the acquirer replaces it only once it has
  expired.
\<close>

definition waiting :: "string \<Rightarrow> string \<Rightarrow> lock_pc \<times> world \<Rightarrow> bool" where
  "waiting k l s =
     (case fst s of
        AtSetnx \<Rightarrow> held k l (snd s)
      | AtGet \<Rightarrow> held k l (snd s)
      | Sleeping \<Rightarrow> held k l (snd s)
      | AtGetset \<Rightarrow> held k l (snd s) \<and> expired l (snd s)
      | Acquired \<Rightarrow> expired l (snd s)
      | Raised e \<Rightarrow> True)"

lemma waiting_step: "waiting k l s \<Longrightarrow> waiting k l (lock_step k s)"
proof -
  assume a: "waiting k l s"
  obtain pc w where s: "s = (pc, w)" by (cases s)
  show ?thesis
  proof (cases pc)
    case AtSetnx
    with a s show ?thesis
      by (auto simp: waiting_def lock_step_def setnx_def held_def issue_def)
  next
    case AtGet
    with a s show ?thesis
      by (auto simp: waiting_def lock_step_def get_def held_def issue_def absent_or_empty_def
          expired_def lock_has_expired_def split: sum.splits)
  next
    case AtGetset
    with a s show ?thesis
      by (auto simp: waiting_def lock_step_def getset_def held_def issue_def absent_or_empty_def
          expired_def lock_has_expired_def split: sum.splits)
  next
    case Sleeping
    with a s show ?thesis
      by (auto simp: waiting_def lock_step_def held_def sleep_def)
  next
    case Acquired
    with a s show ?thesis by (simp add: waiting_def lock_step_def)
  next
    case (Raised e)
    with a s show ?thesis by (simp add: waiting_def lock_step_def)
  qed
qed

lemma waiting_steps: "waiting k l s \<Longrightarrow> waiting k l ((lock_step k ^^ n) s)"
  by (induction n) (auto intro: waiting_step)

lemma acquired_after_expiry:
  assumes "held k l w" "(lock_step k ^^ n) (AtSetnx, w) = (Acquired, w')"
  shows "expired l w'"
proof -
  from assms(1) have "waiting k l (AtSetnx, w)" by (simp add: waiting_def)
  from waiting_steps [OF this, of n] assms(2) show ?thesis by (simp add: waiting_def)
qed


lemma Mutex_lock_acquired:
  assumes "Mutex_lock C i w = Some (Inr u, w')"
  shows "\<exists>k pc wp. key_att C i ''_lock'' = Inr k \<and> pc \<noteq> Acquired \<and>
           lock_step k (pc, wp) = (Acquired, w')"
proof -
  from assms obtain k where k: "key_att C i ''_lock'' = Inr k"
    by (auto simp: Mutex_lock_def split: sum.splits)
  from assms k obtain pc' where
    run: "while_option lock_running (lock_step k) (AtSetnx, w) = Some (pc', w')"
    and pc': "\<forall>e. pc' \<noteq> Raised e"
    by (auto simp: Mutex_lock_def split: option.splits prod.splits lock_pc.splits)
  let ?P = "\<lambda>s. s = (AtSetnx, w) \<or> (\<exists>p. lock_running p \<and> s = lock_step k p)"
  have "?P (pc', w')"
    by (rule while_option_rule [where P = ?P, OF _ run]) auto
  moreover from while_option_stop [OF run] have stop: "\<not> lock_running (pc', w')" .
  ultimately obtain p where p: "lock_running p" "(pc', w') = lock_step k p"
    by (auto simp: lock_running_def)
  from stop pc' have "pc' = Acquired" by (cases pc') (auto simp: lock_running_def)
  obtain a b where ab: "p = (a, b)" by (cases p)
  from p(1) ab have "a \<noteq> Acquired" by (auto simp: lock_running_def)
  moreover from p(2) ab \<open>pc' = Acquired\<close> have "lock_step k (a, b) = (Acquired, w')" by simp
  ultimately show ?thesis using k by blast
qed

lemma Mutex_lock_waits:
  assumes "key_att C i ''_lock'' = Inr k" "held k l w" "Mutex_lock C i w = Some (Inr u, w')"
  shows "expired l w'"
proof -
  from assms obtain pc' where
    run: "while_option lock_running (lock_step k) (AtSetnx, w) = Some (pc', w')"
    and pc': "\<forall>e. pc' \<noteq> Raised e"
    by (auto simp: Mutex_lock_def split: option.splits prod.splits lock_pc.splits)
  from assms(2) have init: "waiting k l (AtSetnx, w)" by (simp add: waiting_def)
  have w: "waiting k l (pc', w')"
    by (rule while_option_rule [where P = "waiting k l", OF _ run init]) (rule waiting_step)
  from while_option_stop [OF run] pc' have "pc' = Acquired"
    by (cases pc') (auto simp: lock_running_def)
  with w show ?thesis by (simp add: waiting_def)
qed

lemma Mutex_lock_free:
  assumes "key_att C i ''_lock'' = Inr k" "store w k = None"
  shows "Mutex_lock C i w =
     Some (Inr (), (issue (SETNX k (lock_timeout w)) w)\<lparr>store := (store w)(k \<mapsto> RString (lock_timeout w))\<rparr>)"
  using assms
  by (simp add: Mutex_lock_def while_option_unfold [of _ _ "(AtSetnx, w)"]
      while_option_unfold [of _ _ "(Acquired, w')" for w'] lock_running_def lock_step_def setnx_def)

text \<open>
  The world after one round of an acquirer that finds an unexpired lease (a failed
  \<^verbatim>\<open>setnx\<close>, the \<^verbatim>\<open>get\<close>, the sleep), and after the round in which it replaces an expired
  lease (a failed \<^verbatim>\<open>setnx\<close>, the \<^verbatim>\<open>get\<close>, the \<^verbatim>\<open>getset\<close>).
\<close>

definition retry :: "string \<Rightarrow> world \<Rightarrow> world" where
  "retry k w = sleep (1 / 2) (issue (GET k) (issue (SETNX k (lock_timeout w)) w))"

definition take_over :: "string \<Rightarrow> world \<Rightarrow> world" where
  "take_over k w =
     (issue (GETSET k (lock_timeout w)) (issue (GET k) (issue (SETNX k (lock_timeout w)) w)))
       \<lparr>store := (store w)(k \<mapsto> RString (lock_timeout w))\<rparr>"

lemma while_retry:
  assumes "held k l w" "lock_has_expired l w = Inr False"
  shows "while_option lock_running (lock_step k) (AtSetnx, w) =
         while_option lock_running (lock_step k) (AtSetnx, retry k w)"
proof -
  let ?w1 = "issue (SETNX k (lock_timeout w)) w"
  let ?w2 = "issue (GET k) ?w1"
  have 1: "lock_step k (AtSetnx, w) = (AtGet, ?w1)"
    using assms(1) by (simp add: lock_step_def setnx_def held_def)
  have e: "lock_has_expired l ?w2 = Inr False"
    using assms(2) lock_has_expired_clock [of ?w2 w l] by (simp add: issue_def)
  have 2: "lock_step k (AtGet, ?w1) = (Sleeping, ?w2)"
    using assms(1) e by (simp add: lock_step_def get_def held_def issue_def absent_or_empty_def)
  have 3: "lock_step k (Sleeping, ?w2) = (AtSetnx, retry k w)"
    by (simp add: lock_step_def retry_def)
  have "while_option lock_running (lock_step k) (AtSetnx, w) =
        while_option lock_running (lock_step k) (AtGet, ?w1)"
    by (subst while_option_unfold) (simp add: lock_running_def 1)
  also have "\<dots> = while_option lock_running (lock_step k) (Sleeping, ?w2)"
    by (subst while_option_unfold) (simp add: lock_running_def 2)
  also have "\<dots> = while_option lock_running (lock_step k) (AtSetnx, retry k w)"
    by (subst while_option_unfold) (simp add: lock_running_def 3)
  finally show ?thesis .
qed

lemma while_take_over:
  assumes "held k l w" "expired l w"
  shows "while_option lock_running (lock_step k) (AtSetnx, w) = Some (Acquired, take_over k w)"
proof -
  let ?w1 = "issue (SETNX k (lock_timeout w)) w"
  let ?w2 = "issue (GET k) ?w1"
  have 1: "lock_step k (AtSetnx, w) = (AtGet, ?w1)"
    using assms(1) by (simp add: lock_step_def setnx_def held_def)
  have e2: "lock_has_expired l ?w2 = Inr True"
    using assms(2) lock_has_expired_clock [of ?w2 w l] by (simp add: issue_def expired_def)
  have 2: "lock_step k (AtGet, ?w1) = (AtGetset, ?w2)"
    using assms(1) e2 by (simp add: lock_step_def get_def held_def issue_def absent_or_empty_def)
  have e3: "lock_has_expired l (take_over k w) = Inr True"
    using assms(2) lock_has_expired_clock [of "take_over k w" w l]
    by (simp add: issue_def expired_def take_over_def)
  have t: "lock_timeout ?w2 = lock_timeout w" by (simp add: lock_timeout_def issue_def)
  have 3: "lock_step k (AtGetset, ?w2) = (Acquired, take_over k w)"
    using assms(1) e3 t
    by (simp add: lock_step_def getset_def held_def absent_or_empty_def)
       (simp add: issue_def take_over_def)
  have "while_option lock_running (lock_step k) (AtSetnx, w) =
        while_option lock_running (lock_step k) (AtGet, ?w1)"
    by (subst while_option_unfold) (simp add: lock_running_def 1)
  also have "\<dots> = while_option lock_running (lock_step k) (AtGetset, ?w2)"
    by (subst while_option_unfold) (simp add: lock_running_def 2)
  also have "\<dots> = while_option lock_running (lock_step k) (Acquired, take_over k w)"
    by (subst while_option_unfold) (simp add: lock_running_def 3)
  also have "\<dots> = Some (Acquired, take_over k w)"
    by (subst while_option_unfold) (simp add: lock_running_def)
  finally show ?thesis .
qed

lemma retry_frame: "store (retry k w) = store w" "clock (retry k w) = clock w + 1 / 2"
  by (simp_all add: retry_def sleep_def issue_def)

lemma held_retry: "held k l (retry k w) = held k l w"
  by (simp add: held_def retry_frame)

text \<open>The lease written at time 0 is the text of 1.0; it has expired when the clock is past 1.\<close>

lemma ilog2_one: "ilog2 1 = 0"
  by (simp add: ilog2_def compute_floorlog pow2_def)

lemma one_is_double: "round_to_double 1 = Finite 1"
  by (simp add: round_to_double_def round_pos_double_def ilog2_one pow2_def
      round_half_even_numeral)

lemma first_lease_expired:
  "lock_has_expired (lock_timeout empty_world) w = Inr (1 < clock w)"
proof -
  have "round6 1 = 1" by (rule round6_exact) simp
  then have "float_of_string (lock_timeout empty_world) = Inr (Finite 1)"
    by (simp add: lock_timeout_def empty_world_def float_of_string_format_f one_is_double
        del: format_f.simps)
  then show ?thesis by (simp add: lock_has_expired_def)
qed

lemma first_lease_text: "lock_timeout empty_world \<noteq> []"
  by (simp add: lock_timeout_def format_fixed_def)


definition first_holds :: world where
  "first_holds =
     \<lparr>store = [''Guest:1:_lock'' \<mapsto> RString (lock_timeout empty_world)],
      issued = [SETNX ''Guest:1:_lock'' (lock_timeout empty_world)], clock = 0\<rparr>"

lemma guest_lock_key: "key_att Guest saved_guest ''_lock'' = Inr ''Guest:1:_lock''"
  by (simp add: eval_defs)

lemma first_acquires: "Mutex_lock Guest saved_guest empty_world = Some (Inr (), first_holds)"
  by (simp add: Mutex_lock_free [OF guest_lock_key] first_holds_def empty_world_def issue_def)

lemma first_held: "held ''Guest:1:_lock'' (lock_timeout empty_world) first_holds"
  by (simp add: held_def first_holds_def first_lease_text)

lemma second_acquires:
  "Mutex_lock Guest saved_guest first_holds =
     Some (Inr (), take_over ''Guest:1:_lock''
        (retry ''Guest:1:_lock'' (retry ''Guest:1:_lock'' (retry ''Guest:1:_lock'' first_holds))))"
proof -
  let ?k = "''Guest:1:_lock''"
  let ?l = "lock_timeout empty_world"
  let ?w1 = "retry ?k first_holds"
  let ?w2 = "retry ?k ?w1"
  let ?w3 = "retry ?k ?w2"
  have c0: "clock first_holds = 0" by (simp add: first_holds_def)
  have h1: "held ?k ?l ?w1" and h2: "held ?k ?l ?w2" and h3: "held ?k ?l ?w3"
    using first_held by (simp_all add: held_retry)
  have e0: "lock_has_expired ?l first_holds = Inr False" by (simp add: first_lease_expired c0)
  have e1: "lock_has_expired ?l ?w1 = Inr False" by (simp add: first_lease_expired retry_frame c0)
  have e2: "lock_has_expired ?l ?w2 = Inr False" by (simp add: first_lease_expired retry_frame c0)
  have e3: "expired ?l ?w3" by (simp add: expired_def first_lease_expired retry_frame c0)
  have "while_option lock_running (lock_step ?k) (AtSetnx, first_holds) =
        Some (Acquired, take_over ?k ?w3)"
    by (simp only: while_retry [OF first_held e0] while_retry [OF h1 e1] while_retry [OF h2 e2]
        while_take_over [OF h3 e3])
  then show ?thesis by (simp add: Mutex_lock_def guest_lock_key)
qed

section \<open>The lock\<close>

text \<open>
  C9, as amended.  Acquisition succeeds only by a \<^verbatim>\<open>setnx\<close> that found no lock, or by a
  \<^verbatim>\<open>getset\<close> that replaced an absent, empty or expired lock, and leaves the lock at the
  text of now + 1.0.  An acquirer that finds an unexpired lease sleeps 0.5 and tries
  again.  Against a lease that nobody releases, the acquirer gets the lock only once the
  lease has expired.  The release deletes the lock key, whatever it holds.
\<close>

theorem lock_is_a_lease:
  assumes "key_att C i ''_lock'' = Inr k"
  shows "(Mutex_lock C i w = Some (Inr u, w') \<longrightarrow>
            (\<exists>pc wp. pc \<noteq> Acquired \<and> lock_step k (pc, wp) = (Acquired, w') \<and>
               store w' k = Some (RString (lock_timeout wp)) \<and>
               ((pc = AtSetnx \<and> store wp k = None) \<or>
                (pc = AtGetset \<and>
                   (store wp k = None \<or> store wp k = Some (RString []) \<or>
                    (\<exists>l. store wp k = Some (RString l) \<and> expired l wp)))))) \<and>
         (held k l w \<and> lock_has_expired l w = Inr False \<longrightarrow>
            (lock_step k ^^ 3) (AtSetnx, w) = (AtSetnx, retry k w) \<and>
            clock (retry k w) = clock w + 1 / 2 \<and> store (retry k w) = store w) \<and>
         (held k l w \<and> Mutex_lock C i w = Some (Inr u, w') \<longrightarrow> expired l w') \<and>
         Mutex_unlock C i w = (Inr (), delete k w) \<and> store (delete k w) k = None"
proof -
  have a: "\<exists>pc wp. pc \<noteq> Acquired \<and> lock_step k (pc, wp) = (Acquired, w') \<and>
               store w' k = Some (RString (lock_timeout wp)) \<and>
               ((pc = AtSetnx \<and> store wp k = None) \<or>
                (pc = AtGetset \<and>
                   (store wp k = None \<or> store wp k = Some (RString []) \<or>
                    (\<exists>l. store wp k = Some (RString l) \<and> expired l wp))))"
    if "Mutex_lock C i w = Some (Inr u, w')"
  proof -
    from Mutex_lock_acquired [OF that] assms obtain pc wp where
      p: "pc \<noteq> Acquired" "lock_step k (pc, wp) = (Acquired, w')" by auto
    from lock_step_acquires [OF p] p show ?thesis by blast
  qed
  have b: "(lock_step k ^^ 3) (AtSetnx, w) = (AtSetnx, retry k w)"
    if "held k l w" "lock_has_expired l w = Inr False"
    using lock_step_waits [OF that] by (simp add: retry_def)
  have c: "expired l w'" if "held k l w" "Mutex_lock C i w = Some (Inr u, w')"
    using Mutex_lock_waits [OF assms that] .
  have d: "Mutex_unlock C i w = (Inr (), delete k w) \<and> store (delete k w) k = None"
    using assms by (simp add: Mutex_unlock_def delete_def issue_def)
  from a b c d show ?thesis by (simp add: retry_frame)
qed

theorem lock_is_a_lease_witness:
  "key_att Guest saved_guest ''_lock'' = Inr ''Guest:1:_lock'' \<and>
   Mutex_lock Guest saved_guest empty_world = Some (Inr (), first_holds) \<and>
   (\<exists>pc wp. pc \<noteq> Acquired \<and> lock_step ''Guest:1:_lock'' (pc, wp) = (Acquired, first_holds) \<and>
       store first_holds ''Guest:1:_lock'' = Some (RString (lock_timeout wp)) \<and>
       ((pc = AtSetnx \<and> store wp ''Guest:1:_lock'' = None) \<or>
        (pc = AtGetset \<and>
           (store wp ''Guest:1:_lock'' = None \<or> store wp ''Guest:1:_lock'' = Some (RString []) \<or>
            (\<exists>l. store wp ''Guest:1:_lock'' = Some (RString l) \<and> expired l wp))))) \<and>
   held ''Guest:1:_lock'' (lock_timeout empty_world) first_holds \<and>
   lock_has_expired (lock_timeout empty_world) first_holds = Inr False \<and>
   (lock_step ''Guest:1:_lock'' ^^ 3) (AtSetnx, first_holds) =
     (AtSetnx, retry ''Guest:1:_lock'' first_holds) \<and>
   clock (retry ''Guest:1:_lock'' first_holds) = 1 / 2 \<and>
   Mutex_lock Guest saved_guest first_holds =
     Some (Inr (), take_over ''Guest:1:_lock''
        (retry ''Guest:1:_lock'' (retry ''Guest:1:_lock'' (retry ''Guest:1:_lock'' first_holds)))) \<and>
   expired (lock_timeout empty_world)
     (take_over ''Guest:1:_lock''
        (retry ''Guest:1:_lock'' (retry ''Guest:1:_lock'' (retry ''Guest:1:_lock'' first_holds)))) \<and>
   Mutex_unlock Guest saved_guest first_holds = (Inr (), delete ''Guest:1:_lock'' first_holds) \<and>
   store (delete ''Guest:1:_lock'' first_holds) ''Guest:1:_lock'' = None"
proof -
  have e0: "lock_has_expired (lock_timeout empty_world) first_holds = Inr False"
    by (simp add: first_lease_expired first_holds_def)
  have c0: "clock first_holds = 0" by (simp add: first_holds_def)
  from lock_is_a_lease [OF guest_lock_key, of empty_world "()" first_holds
      "lock_timeout empty_world"]
    lock_is_a_lease [OF guest_lock_key, of first_holds "()"
      "take_over ''Guest:1:_lock''
        (retry ''Guest:1:_lock'' (retry ''Guest:1:_lock'' (retry ''Guest:1:_lock'' first_holds)))"
      "lock_timeout empty_world"]
    guest_lock_key first_acquires first_held e0 second_acquires c0
  show ?thesis by simp
qed

text \<open>
  C9, as stated, fails where it concludes that two saves of the same record never
  interleave.  A first writer takes the lock of the \<open>Guest\<close> record 1 at time 0 and then
  stalls, inside its critical section.  A second \<^verbatim>\<open>save\<close> of the same record finds the
  lease, sleeps three times, replaces the lease at time 1.5 when it has expired, writes the
  record and deletes the lock, all before the first writer writes or releases.
\<close>

theorem second_save_during_first_lease:
  "Mutex_lock Guest saved_guest empty_world = Some (Inr (), first_holds) \<and>
   held ''Guest:1:_lock'' (lock_timeout empty_world) first_holds \<and>
   (\<exists>wB. save test_env Guest saved_guest first_holds = Some (Inr (Saved, saved_guest), wB) \<and>
         clock wB = 3 / 2 \<and>
         store wB ''Guest:1'' = Some (RHash (hash_text test_env [(''name'', PStr ''guest'')])) \<and>
         store wB ''Guest:1:_lock'' = None)"
proof -
  let ?k = "''Guest:1:_lock''"
  let ?w = "take_over ?k (retry ?k (retry ?k (retry ?k first_holds)))"
  have v: "is_valid test_env Guest saved_guest = Inr (True, saved_guest)"
    by (simp add: eval_valid eval_text)
  have c: "clock ?w = 3 / 2" "store ?w ''Guest:1'' = None"
    by (simp_all add: take_over_def issue_def retry_frame first_holds_def)
  let ?h = "hash_text test_env [(''name'', PStr ''guest'')]"
  let ?ww = "(issue (HMSET ''Guest:1'' ?h) (delete ''Guest:1'' ?w))
               \<lparr>store := (store (delete ''Guest:1'' ?w))(''Guest:1'' \<mapsto> RHash ?h)\<rparr>"
  have ky: "key Guest saved_guest = Inr ''Guest:1''" by (simp add: eval_defs)
  have wr: "Model_write test_env Guest False saved_guest ?w = (Inr saved_guest, ?ww)"
    using saved_guest_data c(2)
    by (simp add: Model_write_def get_data_for_storage_def hmset_def ky)
       (simp add: delete_def issue_def)
  have n: "\<not> is_new saved_guest" by (simp add: is_new_def saved_guest_def)
  have lw: "locked_write test_env Guest False saved_guest first_holds =
      Some (Inr saved_guest, delete ?k ?ww)"
    by (simp add: locked_write_def second_acquires wr Mutex_unlock_def guest_lock_key)
  have sv: "save test_env Guest saved_guest first_holds =
      Some (Inr (Saved, saved_guest), delete ?k ?ww)"
    by (simp add: save_def v n lw)
  have p: "clock (delete ?k ?ww) = 3 / 2" "store (delete ?k ?ww) ''Guest:1'' = Some (RHash ?h)"
    "store (delete ?k ?ww) ?k = None"
    using c(1) by (simp_all add: delete_def issue_def)
  from sv p have "\<exists>wB. save test_env Guest saved_guest first_holds = Some (Inr (Saved, saved_guest), wB) \<and>
         clock wB = 3 / 2 \<and>
         store wB ''Guest:1'' = Some (RHash (hash_text test_env [(''name'', PStr ''guest'')])) \<and>
         store wB ''Guest:1:_lock'' = None"
    by blast
  with first_acquires first_held show ?thesis by simp
qed

end
